theory Spec2Isabelle
  imports Complex_Main
begin

section \<open>The analytic differentiator of OpenMDAO (\<open>differentiators/analytic.py\<close>)\<close>

text \<open>
  The class \<open>Analytic\<close> assembles a linear system \<open>LHS \<cdot> X = RHS\<close> from the local
  derivatives of the components of a driver's workflow, solves it, and combines the solution
  with the rows \<open>EQS\<close>, \<open>EQS_zero\<close> of the objectives and constraints.

  Conventions of the embedding:
  \<^item> numpy's \<open>float64\<close> entries are modelled as \<^typ>\<open>real\<close>; a numpy matrix is a list of rows;
  \<^item> every Python exception is a value of \<open>error\<close>, and a method that can raise returns
    \<open>error + 'a\<close> with \<open>Inl\<close> for the exception;
  \<^item> the attributes of \<open>self\<close> are the fields of the record \<open>analytic\<close>, passed and returned;
  \<^item> a Python dict that is iterated is an association list in its iteration order, a dict that
    is only looked up is a map.
\<close>

subsection \<open>Exceptions\<close>

datatype error =
    NotImplementedError string
  | NameError
  | KeyError
  | IndexError
  | ValueError
  | AttributeError
  | LinAlgError

definition ebind :: "error + 'a \<Rightarrow> ('a \<Rightarrow> error + 'b) \<Rightarrow> error + 'b" where
  "ebind m f = (case m of Inl e \<Rightarrow> Inl e | Inr x \<Rightarrow> f x)"

subsection \<open>Lists, dicts and numpy matrices\<close>

type_synonym name = string
type_synonym matrix = "real list list"

text \<open>\<open>xs.index(x)\<close>: the first position of \<open>x\<close>, \<open>ValueError\<close> when it is absent.\<close>

fun list_index_from :: "'a list \<Rightarrow> 'a \<Rightarrow> nat \<Rightarrow> error + nat" where
  "list_index_from [] x n = Inl ValueError"
| "list_index_from (y # ys) x n = (if y = x then Inr n else list_index_from ys x (Suc n))"

definition list_index :: "'a list \<Rightarrow> 'a \<Rightarrow> error + nat" where
  "list_index xs x = list_index_from xs x 0"

text \<open>\<open>d[k]\<close> on a dict: \<open>KeyError\<close> when the key is absent.\<close>

definition getitem :: "('k \<rightharpoonup> 'v) \<Rightarrow> 'k \<Rightarrow> error + 'v" where
  "getitem d k = (case d k of None \<Rightarrow> Inl KeyError | Some v \<Rightarrow> Inr v)"

text \<open>\<open>zeros((n, m), 'd')\<close>.\<close>

definition zeros :: "nat \<Rightarrow> nat \<Rightarrow> matrix" where
  "zeros n m = replicate n (replicate m 0)"

text \<open>\<open>M[i][j]\<close> and \<open>M[i][j] = v\<close> with non-negative indices: numpy raises \<open>IndexError\<close>
  out of range.\<close>

definition mat_row :: "matrix \<Rightarrow> nat \<Rightarrow> error + real list" where
  "mat_row M i = (if i < length M then Inr (M ! i) else Inl IndexError)"

definition mat_get :: "matrix \<Rightarrow> nat \<Rightarrow> nat \<Rightarrow> error + real" where
  "mat_get M i j =
     (if i < length M then (if j < length (M ! i) then Inr (M ! i ! j) else Inl IndexError)
      else Inl IndexError)"

definition mat_set :: "matrix \<Rightarrow> nat \<Rightarrow> nat \<Rightarrow> real \<Rightarrow> error + matrix" where
  "mat_set M i j v =
     (if i < length M then (if j < length (M ! i) then Inr (M[i := (M ! i)[j := v]]) else Inl IndexError)
      else Inl IndexError)"

text \<open>\<open>M[i][j] += v\<close>.\<close>

definition mat_add_at :: "matrix \<Rightarrow> nat \<Rightarrow> nat \<Rightarrow> real \<Rightarrow> error + matrix" where
  "mat_add_at M i j v = ebind (mat_get M i j) (\<lambda>old. mat_set M i j (old + v))"

subsection \<open>The state of the differentiator\<close>

datatype mode = direct | adjoint

text \<open>The attributes of \<open>self\<close>. \<open>param_names\<close> and \<open>function_names\<close> are set by the parent
  class's \<open>setup\<close> (\<open>ChainRule\<close>, not part of this file).\<close>

record analytic =
  LHS :: matrix
  RHS :: matrix
  EQS :: matrix
  EQS_zero :: matrix
  gradient :: matrix
  var_list :: "name list"
  param_names :: "name list"
  function_names :: "name list"
  mode :: mode

subsection \<open>Strings\<close>

text \<open>\<open>sub in s\<close> for strings.\<close>

fun contains :: "string \<Rightarrow> string \<Rightarrow> bool" where
  "contains sub [] = (sub = [])"
| "contains sub (c # cs) = (take (length sub) (c # cs) = sub \<or> contains sub cs)"

text \<open>\<open>s.replace(old, '')\<close> for a non-empty \<open>old\<close>: every occurrence, left to right.\<close>

fun remove_all :: "string \<Rightarrow> string \<Rightarrow> string" where
  "remove_all old [] = []"
| "remove_all old (c # cs) =
     (if old \<noteq> [] \<and> take (length old) (c # cs) = old
      then remove_all old (drop (length old) (c # cs))
      else c # remove_all old cs)"

subsection \<open>The model being differentiated\<close>

text \<open>
  What the differentiator reads from the framework. None of these classes is part of this
  file; each field is named after the method or attribute it stands for.

  An expression object of the expression mapper: \<open>refs()\<close> (a set; \<open>pop()\<close> takes its first
  element in iteration order), \<open>evaluate_gradient(scope, wrt)\<close> (a dict), and
  \<open>get_metadata('units')\<close> (a list of pairs of a name and a unit, \<open>None\<close> for no unit).
\<close>

record expr =
  refs :: "name list"
  evaluate_gradient :: "name \<Rightarrow> (name \<rightharpoonup> real)"
  get_metadata_units :: "(name \<times> string option) list"

text \<open>An assembly as a scope: \<open>_depgraph.connections_to(name)\<close> (a list of pairs of an
  expression text and a target) and \<open>_exprmapper.get_expr(text)\<close> (\<open>None\<close> when unknown).\<close>

record scope =
  connections_to :: "name \<Rightarrow> (name \<times> name) list"
  get_expr :: "name \<rightharpoonup> expr"

text \<open>The functions imported from other libraries: \<open>openmdao.units.convert_units\<close> and
  \<open>numpy.linalg.solve\<close>.\<close>

record env =
  convert_units :: "real \<Rightarrow> string \<Rightarrow> string option \<Rightarrow> error + real"
  linalg_solve :: "matrix \<Rightarrow> matrix \<Rightarrow> error + matrix"

text \<open>An entry of an edge dictionary: \<open>edges[0]\<close> the inputs, \<open>edges[1]\<close> the outputs.\<close>

type_synonym edges = "name list \<times> name list"

definition edge_side :: "edges \<Rightarrow> nat \<Rightarrow> name list" where
  "edge_side edges i = (if i = 0 then fst edges else snd edges)"

text \<open>\<open>node.derivatives.first_derivatives\<close>: \<open>local_derivs[output_name][input_name]\<close>.\<close>

type_synonym derivatives = "name \<rightharpoonup> (name \<rightharpoonup> real)"

text \<open>
  The nodes of a workflow, by the tests the code makes on them:
  \<^item> \<open>Component name derivs\<close>: neither a driver nor an assembly; \<open>derivs\<close> is \<open>Some\<close> of its
    first derivatives when it has the attribute \<open>calculate_first_derivatives\<close>;
  \<^item> \<open>DriverNode name driver\<close>: \<open>isinstance(node, Driver)\<close>;
  \<^item> \<open>AssemblyNode name pathname scope driver\<close>: \<open>isinstance(node, Assembly)\<close>, with
    \<open>node.get_pathname()\<close>, its dependency graph and expressions, and \<open>node.driver\<close>.

  A driver: \<open>get_pathname()\<close>, \<open>has_interface(node, ISolver)\<close>, \<open>isinstance(node, Run_Once)\<close>,
  \<open>get_parameters().keys()\<close>, for each entry of \<open>get_eq_constraints()\<close> the list
  \<open>list(lhs.get_referenced_varpaths().union(rhs.get_referenced_varpaths()))\<close>, the edge
  dictionary \<open>self.edge_dicts[get_pathname()]\<close> that the parent class's \<open>_find_edges\<close> builds
  for it (in iteration order), and the nodes \<open>workflow.__iter__()\<close> yields.
\<close>

datatype node =
    Component name "derivatives option"
  | DriverNode name driver
  | AssemblyNode name name scope driver
and driver =
    Driver (get_pathname: name) (is_solver: bool) (is_run_once: bool)
      (get_parameters: "name list") (get_eq_constraints: "name list list")
      (edge_dicts: "(name \<times> edges) list") (workflow: "node list")

fun name_of :: "node \<Rightarrow> name" where
  "name_of (Component n _) = n"
| "name_of (DriverNode n _) = n"
| "name_of (AssemblyNode n _ _ _) = n"

text \<open>\<open>scope.parent.get(name)\<close> for a name of a driver's edge dictionary: the entries of the
  dictionary name members of that driver's workflow, so the name is resolved there.\<close>

definition get_node :: "node list \<Rightarrow> name \<Rightarrow> node option" where
  "get_node nodes n = find (\<lambda>x. name_of x = n) nodes"

text \<open>What stands around the differentiator: \<open>self._parent\<close> (the driver it differentiates),
  \<open>self._parent.parent\<close> as a scope, and the gradients of the objectives and constraints:
  \<open>expr.evaluate_gradient(scope, wrt)\<close> is a dict for an objective and
  \<open>(lhs, rhs, comparator)\<close> for a constraint.\<close>

record problem =
  parent :: driver
  parent_scope :: scope
  get_objectives :: "(name \<times> (name list \<Rightarrow> (name \<times> real) list)) list"
  get_constraints :: "(name \<times> (name list \<Rightarrow> (name \<times> real) list \<times> (name \<times> real) list \<times> string)) list"

subsection \<open>The variable enumerator: \<open>_edge_counter\<close>\<close>

text \<open>\<open>edge_entries\<close> is the loop over the edge dictionary of the scope and \<open>edge_entry\<close> its
  body; \<open>vl\<close> is \<open>self.var_list\<close>, the only attribute the enumerator touches.\<close>

lemma workflow_size: "size_list size (workflow d) < size d"
  by (cases d) simp

lemma get_node_size: "get_node nodes n = Some x \<Longrightarrow> size x < Suc (size_list size nodes)"
  by (induction nodes) (auto simp: get_node_def split: if_splits)

function edge_counter :: "driver \<Rightarrow> nat \<Rightarrow> name \<Rightarrow> name list \<Rightarrow> error + name list"
  and edge_entries :: "node list \<Rightarrow> (name \<times> edges) list \<Rightarrow> nat \<Rightarrow> name \<Rightarrow> name list \<Rightarrow> error + name list"
  and edge_entry :: "node list \<Rightarrow> name \<times> edges \<Rightarrow> nat \<Rightarrow> name \<Rightarrow> name list \<Rightarrow> error + name list"
where
  "edge_counter dscope index head vl =
     edge_entries (workflow dscope) (edge_dicts dscope) index
       (if head \<noteq> [] then head @ ''.'' else head) vl"
| "edge_entries nodes [] index head vl = Inr vl"
| "edge_entries nodes (entry # rest) index head vl =
     ebind (edge_entry nodes entry index head vl) (\<lambda>vl. edge_entries nodes rest index head vl)"
| "edge_entry nodes (name, edges) index head vl =
     ebind
       (case get_node nodes name of
          None \<Rightarrow> Inl AttributeError
        | Some (AssemblyNode _ node_scope_name _ drv) \<Rightarrow>
            edge_counter drv index node_scope_name
              (vl @ map (\<lambda>input_name. head @ name @ ''.'' @ input_name)
                     (edge_side edges (if index = 1 then 0 else 1)))
        | Some (DriverNode _ drv) \<Rightarrow>
            if \<not> is_solver drv then Inl (NotImplementedError ''Only nested solvers are supported'')
            else edge_counter drv index head vl
        | Some (Component _ _) \<Rightarrow> Inr vl)
       (\<lambda>vl. Inr (vl @ map (\<lambda>output_name. head @ name @ ''.'' @ output_name) (edge_side edges index)))"
  by pat_completeness auto
termination
proof (relation "inv_image (less_than <*lex*> less_than)
         (\<lambda>x. case x of
                 Inl (d, _) \<Rightarrow> (Suc (size d), 0)
               | Inr (Inl (nodes, es, _)) \<Rightarrow> (Suc (size_list size nodes), Suc (length es))
               | Inr (Inr (nodes, _)) \<Rightarrow> (Suc (size_list size nodes), 0))")
  show "wf (inv_image (less_than <*lex*> less_than)
         (\<lambda>x. case x of
                 Inl (d, _) \<Rightarrow> (Suc (size d), 0::nat)
               | Inr (Inl (nodes, es, _)) \<Rightarrow> (Suc (size_list size nodes), Suc (length es))
               | Inr (Inr (nodes, _)) \<Rightarrow> (Suc (size_list size nodes), 0)))"
    by (intro wf_inv_image wf_lex_prod wf_less_than)
qed (auto dest!: get_node_size simp: workflow_size)

subsection \<open>\<open>setup\<close>: the enumeration, the allocation and the rows of the functions\<close>

text \<open>The loop over the gradient of an objective: each value is assigned to \<open>EQS_zero\<close> when
  its name is a parameter, else to \<open>EQS\<close> when its name is an unknown.\<close>

fun route_objective :: "nat \<Rightarrow> (name \<times> real) list \<Rightarrow> analytic \<Rightarrow> error + analytic" where
  "route_objective i_eq [] self = Inr self"
| "route_objective i_eq ((input_name, val) # rest) self =
     (if input_name \<in> set (param_names self) then
        ebind (list_index (param_names self) input_name) (\<lambda>i_param.
        ebind (mat_set (EQS_zero self) i_eq i_param val) (\<lambda>M.
        route_objective i_eq rest (self\<lparr>EQS_zero := M\<rparr>)))
      else if input_name \<in> set (var_list self) then
        ebind (list_index (var_list self) input_name) (\<lambda>i_var.
        ebind (mat_set (EQS self) i_eq i_var val) (\<lambda>M.
        route_objective i_eq rest (self\<lparr>EQS := M\<rparr>)))
      else route_objective i_eq rest self)"

fun setup_objectives ::
  "nat \<Rightarrow> name list \<Rightarrow> (name \<times> (name list \<Rightarrow> (name \<times> real) list)) list \<Rightarrow> analytic \<Rightarrow> error + nat \<times> analytic"
where
  "setup_objectives i_eq wrt [] self = Inr (i_eq, self)"
| "setup_objectives i_eq wrt ((obj_name, expr) # rest) self =
     ebind (route_objective i_eq (expr wrt) self) (\<lambda>self.
     setup_objectives (i_eq + 1) wrt rest self)"

text \<open>\<open>sign = -1.0 if '>' in comparator else 1.0\<close>.\<close>

definition sign :: "string \<Rightarrow> real" where
  "sign comparator = (if CHR ''>'' \<in> set comparator then - 1 else 1)"

text \<open>The loop over one side of a constraint's gradient, with \<open>val = sign*val\<close> for the
  left-hand side and \<open>val = -sign*val\<close> for the right-hand side (\<open>factor\<close> is \<open>sign\<close> or
  \<open>-sign\<close>): each value is added to the entry of \<open>EQS_zero\<close> or \<open>EQS\<close>.\<close>

fun route_constraint :: "nat \<Rightarrow> real \<Rightarrow> (name \<times> real) list \<Rightarrow> analytic \<Rightarrow> error + analytic" where
  "route_constraint i_eq factor [] self = Inr self"
| "route_constraint i_eq factor ((input_name, val) # rest) self =
     (let val = factor * val in
      if input_name \<in> set (param_names self) then
        ebind (list_index (param_names self) input_name) (\<lambda>i_param.
        ebind (mat_add_at (EQS_zero self) i_eq i_param val) (\<lambda>M.
        route_constraint i_eq factor rest (self\<lparr>EQS_zero := M\<rparr>)))
      else if input_name \<in> set (var_list self) then
        ebind (list_index (var_list self) input_name) (\<lambda>i_var.
        ebind (mat_add_at (EQS self) i_eq i_var val) (\<lambda>M.
        route_constraint i_eq factor rest (self\<lparr>EQS := M\<rparr>)))
      else route_constraint i_eq factor rest self)"

definition constraint_row ::
  "nat \<Rightarrow> (name \<times> real) list \<times> (name \<times> real) list \<times> string \<Rightarrow> analytic \<Rightarrow> error + analytic"
where
  "constraint_row i_eq g self =
     (case g of (lhs, rhs, comparator) \<Rightarrow>
        ebind (route_constraint i_eq (sign comparator) lhs self) (\<lambda>self.
        route_constraint i_eq (- sign comparator) rhs self))"

fun setup_constraints ::
  "nat \<Rightarrow> name list \<Rightarrow>
   (name \<times> (name list \<Rightarrow> (name \<times> real) list \<times> (name \<times> real) list \<times> string)) list \<Rightarrow>
   analytic \<Rightarrow> error + nat \<times> analytic"
where
  "setup_constraints i_eq wrt [] self = Inr (i_eq, self)"
| "setup_constraints i_eq wrt ((con_name, constraint) # rest) self =
     ebind (constraint_row i_eq (constraint wrt) self) (\<lambda>self.
     setup_constraints (i_eq + 1) wrt rest self)"

text \<open>\<open>setup\<close> (the name is a keyword of Isabelle, hence the suffix). The parent class's \<open>setup\<close>, called first, leaves \<open>param_names\<close> and
  \<open>function_names\<close> in \<open>self\<close>; \<open>_find_edges\<close> leaves the edge dictionaries with the drivers.\<close>

definition setup_analytic :: "problem \<Rightarrow> analytic \<Rightarrow> error + analytic" where
  "setup_analytic P self =
     (let index = (if mode self = adjoint then 0 else 1);
          self = self\<lparr>var_list := []\<rparr> in
      ebind (edge_counter (parent P) index [] (var_list self)) (\<lambda>vl.
        let self = self\<lparr>var_list := vl\<rparr>;
            n_var = length (var_list self);
            n_param = length (param_names self);
            n_eq = length (function_names self);
            self = self\<lparr>LHS := zeros n_var n_var, RHS := zeros n_var n_param,
                         EQS := zeros n_eq n_var, EQS_zero := zeros n_eq n_param,
                         gradient := zeros n_eq n_param\<rparr>;
            wrt = var_list self @ param_names self in
        ebind (setup_objectives 0 wrt (get_objectives P) self) (\<lambda>(i_eq, self).
        ebind (setup_constraints i_eq wrt (get_constraints P) self) (\<lambda>(i_eq, self).
        Inr self))))"

subsection \<open>The assembler: \<open>_assemble_direct\<close>\<close>

text \<open>
  The local variables of one call of \<open>_assemble_direct\<close> that a later iteration of its loop
  over the workflow can read before it has assigned them: \<open>None\<close> is an unbound local,
  and reading it raises \<open>UnboundLocalError\<close> (a \<open>NameError\<close>).
\<close>

record locals =
  loc_local_derivs :: "derivatives option"
  loc_output_name :: "name option"
  loc_expr_txt :: "name option"
  loc_target :: "name option"

definition unbound :: locals where
  "unbound = \<lparr>loc_local_derivs = None, loc_output_name = None, loc_expr_txt = None, loc_target = None\<rparr>"

definition read_local :: "'a option \<Rightarrow> error + 'a" where
  "read_local v = (case v of None \<Rightarrow> Inl NameError | Some x \<Rightarrow> Inr x)"

text \<open>An attribute of the result of \<open>get_expr\<close>: \<open>AttributeError\<close> on \<open>None\<close>.\<close>

definition attr_of :: "'a option \<Rightarrow> error + 'a" where
  "attr_of v = (case v of None \<Rightarrow> Inl AttributeError | Some x \<Rightarrow> Inr x)"

text \<open>\<open>sources[0]\<close> and \<open>expr.refs().pop()\<close>.\<close>

definition first :: "'a list \<Rightarrow> error + 'a" where
  "first xs = (case xs of [] \<Rightarrow> Inl IndexError | x # _ \<Rightarrow> Inr x)"

definition pop :: "'a list \<Rightarrow> error + 'a" where
  "pop xs = (case xs of [] \<Rightarrow> Inl KeyError | x # _ \<Rightarrow> Inr x)"

text \<open>
  The block that the three kinds of row share: the derivative of the expression with respect
  to its source, multiplied by the conversion factor when the source has a unit:
  \<^verbatim>\<open>
    expr_deriv = expr.evaluate_gradient(scope=ascope, wrt=source)
    metadata = expr.get_metadata('units')
    source_unit = [x[1] for x in metadata if x[0]==source]
    if source_unit and source_unit[0]:
        dest_expr = ascope._exprmapper.get_expr(target)
        metadata = dest_expr.get_metadata('units')
        target_unit = [x[1] for x in metadata if x[0]==target]
        expr_deriv[source] = expr_deriv[source] * \
            convert_units(1.0, source_unit[0], target_unit[0])
  \<close>
  The result is the dict \<open>expr_deriv\<close>.
\<close>

definition unit_converted ::
  "env \<Rightarrow> scope \<Rightarrow> expr \<Rightarrow> name \<Rightarrow> name \<Rightarrow> error + (name \<rightharpoonup> real)"
where
  "unit_converted E ascope expr source target =
     (let expr_deriv = evaluate_gradient expr source;
          source_unit = map snd (filter (\<lambda>x. fst x = source) (get_metadata_units expr))
      in case source_unit of
           Some u # _ \<Rightarrow>
             if u \<noteq> [] then
               ebind (attr_of (get_expr ascope target)) (\<lambda>dest_expr.
               let target_unit = map snd (filter (\<lambda>x. fst x = target) (get_metadata_units dest_expr)) in
               ebind (getitem expr_deriv source) (\<lambda>d.
               ebind (first target_unit) (\<lambda>tu.
               ebind (convert_units E 1 u tu) (\<lambda>k.
               Inr (expr_deriv(source \<mapsto> d * k))))))
             else Inr expr_deriv
         | _ \<Rightarrow> Inr expr_deriv)"

text \<open>Every branch of a row ends in one assignment \<open>self.RHS[i_eq][j] = v\<close> or
  \<open>self.LHS[i_eq][j] = v\<close>, made once the column and the value are evaluated.\<close>

datatype entry = RHS_entry nat real | LHS_entry nat real

fun write_entry :: "nat \<Rightarrow> entry \<Rightarrow> analytic \<Rightarrow> error + analytic" where
  "write_entry i_eq (RHS_entry j v) self = ebind (mat_set (RHS self) i_eq j v) (\<lambda>M. Inr (self\<lparr>RHS := M\<rparr>))"
| "write_entry i_eq (LHS_entry j v) self = ebind (mat_set (LHS self) i_eq j v) (\<lambda>M. Inr (self\<lparr>LHS := M\<rparr>))"

text \<open>\<open>self.LHS[i_eq][i_eq] = 1.0\<close>, which opens a row.\<close>

definition open_row :: "nat \<Rightarrow> analytic \<Rightarrow> error + analytic" where
  "open_row i_eq self = ebind (mat_set (LHS self) i_eq i_eq 1) (\<lambda>M. Inr (self\<lparr>LHS := M\<rparr>))"

text \<open>The body of the loop over the inputs of a component, for one output (lines 418-475).
  First its last branch (lines 440-475), which resolves the connection to the input.\<close>

definition comp_upstream_entry ::
  "env \<Rightarrow> scope \<Rightarrow> name \<Rightarrow> derivatives \<Rightarrow> name \<Rightarrow> name \<Rightarrow> name \<Rightarrow> locals \<Rightarrow> analytic \<Rightarrow>
   error + entry \<times> locals"
where
  "comp_upstream_entry E ascope head local_derivs output_name input_name input_full L self =
     ebind (first (connections_to ascope input_full)) (\<lambda>(expr_txt, target).
     let expr_txt = (if take 4 expr_txt = ''@bin'' then remove_all ''@bin.'' expr_txt else expr_txt);
         L = L\<lparr>loc_expr_txt := Some expr_txt, loc_target := Some target\<rparr> in
     ebind (attr_of (get_expr ascope expr_txt)) (\<lambda>expr.
     ebind (pop (refs expr)) (\<lambda>source.
     ebind (unit_converted E ascope expr source target) (\<lambda>expr_deriv.
     ebind (list_index (var_list self) (head @ source)) (\<lambda>i_var.
     ebind (getitem local_derivs output_name) (\<lambda>row.
     ebind (getitem row input_name) (\<lambda>v.
     ebind (getitem expr_deriv source) (\<lambda>d.
     Inr (LHS_entry i_var (- v * d), L)))))))))"

definition comp_input_entry ::
  "env \<Rightarrow> scope \<Rightarrow> name \<Rightarrow> (name \<rightharpoonup> name) option \<Rightarrow> name \<Rightarrow> derivatives \<Rightarrow> name \<Rightarrow> name \<Rightarrow>
   locals \<Rightarrow> analytic \<Rightarrow> error + entry \<times> locals"
where
  "comp_input_entry E ascope head solver_conns node_name local_derivs output_name input_name L self =
     (let input_full = node_name @ ''.'' @ input_name in
      if input_full \<in> set (param_names self) then
        ebind (list_index (param_names self) input_full) (\<lambda>i_param.
        ebind (getitem local_derivs output_name) (\<lambda>row.
        ebind (getitem row input_name) (\<lambda>v.
        Inr (RHS_entry i_param v, L))))
      else if solver_conns \<noteq> None \<and> input_full \<in> dom (the solver_conns) then
        ebind (getitem (the solver_conns) input_full) (\<lambda>source.
        ebind (list_index (var_list self) source) (\<lambda>i_dep.
        ebind (getitem local_derivs output_name) (\<lambda>row.
        ebind (getitem row input_name) (\<lambda>v.
        Inr (LHS_entry i_dep (- v), L)))))
      else comp_upstream_entry E ascope head local_derivs output_name input_name input_full L self)"

fun comp_inputs ::
  "env \<Rightarrow> scope \<Rightarrow> name \<Rightarrow> (name \<rightharpoonup> name) option \<Rightarrow> name \<Rightarrow> derivatives \<Rightarrow> name \<Rightarrow> name list \<Rightarrow>
   nat \<Rightarrow> locals \<Rightarrow> analytic \<Rightarrow> error + locals \<times> analytic"
where
  "comp_inputs E ascope head solver_conns node_name local_derivs output_name [] i_eq L self = Inr (L, self)"
| "comp_inputs E ascope head solver_conns node_name local_derivs output_name (input_name # rest) i_eq L self =
     ebind (comp_input_entry E ascope head solver_conns node_name local_derivs output_name input_name L self)
       (\<lambda>(e, L).
     ebind (write_entry i_eq e self) (\<lambda>self.
     comp_inputs E ascope head solver_conns node_name local_derivs output_name rest i_eq L self))"

text \<open>The loop over the outputs of a component (lines 411-477): each output is a row.\<close>

fun comp_outputs ::
  "env \<Rightarrow> scope \<Rightarrow> name \<Rightarrow> (name \<rightharpoonup> name) option \<Rightarrow> name \<Rightarrow> derivatives \<Rightarrow> name list \<Rightarrow> name list \<Rightarrow>
   nat \<Rightarrow> locals \<Rightarrow> analytic \<Rightarrow> error + nat \<times> locals \<times> analytic"
where
  "comp_outputs E ascope head solver_conns node_name local_derivs inputs [] i_eq L self = Inr (i_eq, L, self)"
| "comp_outputs E ascope head solver_conns node_name local_derivs inputs (output_name # rest) i_eq L self =
     ebind (open_row i_eq self) (\<lambda>self.
     ebind (comp_inputs E ascope head solver_conns node_name local_derivs output_name inputs i_eq
              (L\<lparr>loc_output_name := Some output_name\<rparr>) self) (\<lambda>(L, self).
     comp_outputs E ascope head solver_conns node_name local_derivs inputs rest (i_eq + 1) L self))"

text \<open>The body of the loop over the boundary inputs of an assembly (lines 299-348). The
  branch of an input that is a parameter reads \<open>local_derivs[output_name][input_name]\<close>:
  two locals that only the branch of a component, or the loop over the outputs of an
  assembly, assigns.\<close>

definition assy_input_entry ::
  "env \<Rightarrow> scope \<Rightarrow> name \<Rightarrow> name \<Rightarrow> name \<Rightarrow> locals \<Rightarrow> analytic \<Rightarrow> error + entry \<times> locals"
where
  "assy_input_entry E ascope head node_name input_name L self =
     (let input_full = node_name @ ''.'' @ input_name in
      if input_full \<in> set (param_names self) then
        ebind (list_index (param_names self) input_full) (\<lambda>i_param.
        ebind (read_local (loc_local_derivs L)) (\<lambda>local_derivs.
        ebind (read_local (loc_output_name L)) (\<lambda>output_name.
        ebind (getitem local_derivs output_name) (\<lambda>row.
        ebind (getitem row input_name) (\<lambda>v.
        Inr (RHS_entry i_param v, L))))))
      else
        ebind (first (connections_to ascope input_full)) (\<lambda>(expr_txt, target).
        let L = L\<lparr>loc_expr_txt := Some expr_txt, loc_target := Some target\<rparr> in
        ebind (attr_of (get_expr ascope expr_txt)) (\<lambda>expr.
        ebind (pop (refs expr)) (\<lambda>source.
        let source = (if take 4 source = ''@bin'' \<and> count_list source (CHR ''.'') < 2
                      then remove_all ''@bin.'' source else source) in
        ebind (unit_converted E ascope expr source target) (\<lambda>expr_deriv.
        ebind (list_index (var_list self) (head @ source)) (\<lambda>i_var.
        ebind (getitem expr_deriv source) (\<lambda>d.
        Inr (LHS_entry i_var (- d), L))))))))"

fun assy_inputs ::
  "env \<Rightarrow> scope \<Rightarrow> name \<Rightarrow> name \<Rightarrow> name list \<Rightarrow> nat \<Rightarrow> locals \<Rightarrow> analytic \<Rightarrow> error + nat \<times> locals \<times> analytic"
where
  "assy_inputs E ascope head node_name [] i_eq L self = Inr (i_eq, L, self)"
| "assy_inputs E ascope head node_name (input_name # rest) i_eq L self =
     ebind (open_row i_eq self) (\<lambda>self.
     ebind (assy_input_entry E ascope head node_name input_name L self) (\<lambda>(e, L).
     ebind (write_entry i_eq e self) (\<lambda>self.
     assy_inputs E ascope head node_name rest (i_eq + 1) L self)))"

text \<open>The body of the loop over the boundary outputs of an assembly (lines 357-399).
  \<open>expr_txt\<close> and \<open>target\<close> are assigned only when a connection to the output has
  \<open>'@bout'\<close> in its target; otherwise they keep what an earlier iteration left.\<close>

definition assy_output_entry ::
  "env \<Rightarrow> scope \<Rightarrow> name \<Rightarrow> name \<Rightarrow> name \<Rightarrow> locals \<Rightarrow> analytic \<Rightarrow> error + entry \<times> locals"
where
  "assy_output_entry E sub_scope head node_name output_name L self =
     (let L = (case find (\<lambda>connect. contains ''@bout'' (snd connect)) (connections_to sub_scope output_name) of
                 None \<Rightarrow> L
               | Some connect \<Rightarrow> L\<lparr>loc_expr_txt := Some (fst connect), loc_target := Some (snd connect)\<rparr>) in
      ebind (read_local (loc_target L)) (\<lambda>target.
      let target = (if take 5 target = ''@bout'' then remove_all ''@bout.'' target else target);
          L = L\<lparr>loc_target := Some target\<rparr> in
      ebind (read_local (loc_expr_txt L)) (\<lambda>expr_txt.
      ebind (attr_of (get_expr sub_scope expr_txt)) (\<lambda>expr.
      ebind (pop (refs expr)) (\<lambda>source.
      ebind (unit_converted E sub_scope expr source target) (\<lambda>expr_deriv.
      ebind (list_index (var_list self) (head @ node_name @ ''.'' @ source)) (\<lambda>i_var.
      ebind (getitem expr_deriv source) (\<lambda>d.
      Inr (LHS_entry i_var (- d), L)))))))))"

fun assy_outputs ::
  "env \<Rightarrow> scope \<Rightarrow> name \<Rightarrow> name \<Rightarrow> name list \<Rightarrow> nat \<Rightarrow> locals \<Rightarrow> analytic \<Rightarrow> error + nat \<times> locals \<times> analytic"
where
  "assy_outputs E sub_scope head node_name [] i_eq L self = Inr (i_eq, L, self)"
| "assy_outputs E sub_scope head node_name (output_name # rest) i_eq L self =
     ebind (open_row i_eq self) (\<lambda>self.
     ebind (assy_output_entry E sub_scope head node_name output_name
              (L\<lparr>loc_output_name := Some output_name\<rparr>) self) (\<lambda>(e, L).
     ebind (write_entry i_eq e self) (\<lambda>self.
     assy_outputs E sub_scope head node_name rest (i_eq + 1) L self)))"

text \<open>The dictionary of the couplings that a nested solver iterates (lines 264-284):
  \<open>solver_dict[indep] = dep\<close>, where \<open>indep\<close> is the one of the two variables of the
  equality constraint that is a parameter of the solver.\<close>

fun solver_dict :: "name list \<Rightarrow> name list list \<Rightarrow> (name \<rightharpoonup> name) \<Rightarrow> error + (name \<rightharpoonup> name)" where
  "solver_dict params [] d = Inr d"
| "solver_dict params (comps # rest) d =
     ebind (first comps) (\<lambda>comps0.
     if comps0 \<in> set params then
       ebind (first (tl comps)) (\<lambda>comps1. solver_dict params rest (d(comps0 \<mapsto> comps1)))
     else
       ebind (first (tl comps)) (\<lambda>comps1.
       if comps1 \<in> set params then solver_dict params rest (d(comps1 \<mapsto> comps0))
       else Inl (NotImplementedError ''No independent in solver equation.'')))"

text \<open>\<open>_assemble_direct(ascope, dscope, eq_num, head, solver_conns)\<close>, its loop over
  \<open>dscope.workflow\<close> (\<open>assemble_nodes\<close>) and the body of the loop (\<open>assemble_node\<close>: a nested
  driver, an assembly, a component with derivatives, or a node that is passed over). The
  edge dictionary \<open>self.edge_dicts[scope_name]\<close> is the one of \<open>dscope\<close>. The result is the
  equation number that is returned, with \<open>self\<close>.\<close>

function assemble_direct ::
  "env \<Rightarrow> scope \<Rightarrow> driver \<Rightarrow> nat \<Rightarrow> name \<Rightarrow> (name \<rightharpoonup> name) option \<Rightarrow> analytic \<Rightarrow> error + nat \<times> analytic"
  and assemble_nodes ::
  "env \<Rightarrow> scope \<Rightarrow> (name \<times> edges) list \<Rightarrow> name \<Rightarrow> (name \<rightharpoonup> name) option \<Rightarrow> node list \<Rightarrow>
   nat \<Rightarrow> locals \<Rightarrow> analytic \<Rightarrow> error + nat \<times> analytic"
  and assemble_node ::
  "env \<Rightarrow> scope \<Rightarrow> (name \<times> edges) list \<Rightarrow> name \<Rightarrow> (name \<rightharpoonup> name) option \<Rightarrow> node \<Rightarrow>
   nat \<Rightarrow> locals \<Rightarrow> analytic \<Rightarrow> error + nat \<times> locals \<times> analytic"
where
  "assemble_direct E ascope (Driver pathname solver run_once params eqs scope_edges nodes) eq_num head solver_conns self =
     assemble_nodes E ascope scope_edges (if head \<noteq> [] then head @ ''.'' else head) solver_conns
       nodes eq_num unbound self"
| "assemble_nodes E ascope scope_edges head solver_conns [] i_eq L self = Inr (i_eq, self)"
| "assemble_nodes E ascope scope_edges head solver_conns (node # rest) i_eq L self =
     ebind (assemble_node E ascope scope_edges head solver_conns node i_eq L self) (\<lambda>(i_eq, L, self).
     assemble_nodes E ascope scope_edges head solver_conns rest i_eq L self)"
| "assemble_node E ascope scope_edges head solver_conns node i_eq L self =
     (case node of
        DriverNode node_name drv \<Rightarrow>
          if \<not> is_solver drv then Inl (NotImplementedError ''Only nested solvers are supported'')
          else
            ebind (solver_dict (get_parameters drv) (get_eq_constraints drv) Map.empty) (\<lambda>sd.
            ebind (assemble_direct E ascope drv i_eq head (Some sd) self) (\<lambda>(i_eq, self).
            Inr (i_eq, L, self)))
      | AssemblyNode node_name assy_scope_name sub_scope drv \<Rightarrow>
          if \<not> is_run_once drv then Inl (NotImplementedError ''Nested drivers'')
          else
            ebind (getitem (map_of scope_edges) node_name) (\<lambda>edge_dict.
            ebind (assy_inputs E ascope head node_name (fst edge_dict) i_eq L self) (\<lambda>(i_eq, L, self).
            ebind (assemble_direct E sub_scope drv i_eq assy_scope_name None self) (\<lambda>(i_eq, self).
            assy_outputs E sub_scope head node_name (snd edge_dict) i_eq L self)))
      | Component node_name None \<Rightarrow> Inr (i_eq, L, self)
      | Component node_name (Some local_derivs) \<Rightarrow>
          ebind (getitem (map_of scope_edges) node_name) (\<lambda>edge_dict.
          comp_outputs E ascope head solver_conns node_name local_derivs (fst edge_dict) (snd edge_dict)
            i_eq (L\<lparr>loc_local_derivs := Some local_derivs\<rparr>) self))"
  by pat_completeness auto
termination
  by (relation "measure (\<lambda>x. case x of
         Inl (E, ascope, d, _) \<Rightarrow> 3 * size d
       | Inr (Inl (E, ascope, scope_edges, head, solver_conns, nodes, _)) \<Rightarrow> 3 * size_list size nodes + 2
       | Inr (Inr (E, ascope, scope_edges, head, solver_conns, node, _)) \<Rightarrow> 3 * size node + 1)")
    auto

subsection \<open>\<open>_solve\<close> and \<open>calc_gradient\<close>\<close>

text \<open>\<open>dot(A, B)\<close> for matrices and \<open>A + B\<close> for matrices of one shape (\<open>setup\<close> gives
  \<open>EQS_zero\<close> and the product the same shape, so numpy's broadcasting is not modelled):
  \<open>ValueError\<close> when the shapes do not fit.\<close>

definition dot :: "matrix \<Rightarrow> matrix \<Rightarrow> error + matrix" where
  "dot A B =
     (if list_all (\<lambda>r. length r = length B) A then
        Inr (map (\<lambda>r. map (\<lambda>j. sum_list (map2 (*) r (map (\<lambda>b. b ! j) B)))
                        [0..<(case B of [] \<Rightarrow> 0 | b # _ \<Rightarrow> length b)]) A)
      else Inl ValueError)"

definition mat_add :: "matrix \<Rightarrow> matrix \<Rightarrow> error + matrix" where
  "mat_add A B = (if map length A = map length B then Inr (map2 (map2 (+)) A B) else Inl ValueError)"

definition solve :: "env \<Rightarrow> analytic \<Rightarrow> error + analytic" where
  "solve E self =
     ebind (linalg_solve E (LHS self) (RHS self)) (\<lambda>total_derivs.
     ebind (dot (EQS self) total_derivs) (\<lambda>D.
     ebind (mat_add (EQS_zero self) D) (\<lambda>G.
     Inr (self\<lparr>gradient := G\<rparr>))))"

text \<open>\<open>calc_gradient\<close>. \<open>cached\<close> is the test \<open>self._parent in self.edge_dicts\<close>, on the
  dictionary that the parent class fills.\<close>

definition calc_gradient :: "env \<Rightarrow> problem \<Rightarrow> bool \<Rightarrow> analytic \<Rightarrow> error + analytic" where
  "calc_gradient E P cached self =
     ebind (if \<not> cached then setup_analytic P self else Inr self) (\<lambda>self.
     ebind (if mode self = direct
            then ebind (assemble_direct E (parent_scope P) (parent P) 0 [] None self)
                   (\<lambda>(i_eq, self). Inr self)
            else Inr self) (\<lambda>self.
     solve E self))"

subsection \<open>The gradient accessors\<close>

definition get_derivative :: "analytic \<Rightarrow> name \<Rightarrow> name \<Rightarrow> error + real" where
  "get_derivative self output_name wrt =
     ebind (list_index (param_names self) wrt) (\<lambda>i_param.
     ebind (list_index (function_names self) output_name) (\<lambda>i_func.
     mat_get (gradient self) i_func i_param))"

text \<open>\<open>output_name\<close> defaults to \<open>None\<close>, which is no element of a list of names.\<close>

definition get_gradient :: "analytic \<Rightarrow> name option \<Rightarrow> error + real list" where
  "get_gradient self output_name =
     (case output_name of
        None \<Rightarrow> Inl ValueError
      | Some n \<Rightarrow> ebind (list_index (function_names self) n) (\<lambda>i_func. mat_row (gradient self) i_func))"

subsection \<open>An exact linear solver\<close>

text \<open>
  Modelled from the spec: \<open>numpy.linalg.solve\<close>, which is not code of this repository. The
  spec (4.3) has it solve \<open>LHS \<cdot> X = RHS\<close> for a dense \<open>X\<close> and fail on a singular
  \<open>LHS\<close>. \<open>exact_solve\<close> is Gauss-Jordan elimination over the reals on the rows \<open>A | B\<close>; the
  concrete examples below use it where a solver has to be named, and the theorems that
  hold for every solver take the solver from \<open>env\<close>.
\<close>

definition find_pivot :: "nat \<Rightarrow> matrix \<Rightarrow> nat option" where
  "find_pivot k M = (case filter (\<lambda>i. M ! i ! k \<noteq> 0) [k..<length M] of [] \<Rightarrow> None | p # _ \<Rightarrow> Some p)"

definition gj_step :: "nat \<Rightarrow> matrix \<Rightarrow> error + matrix" where
  "gj_step k M =
     (case find_pivot k M of
        None \<Rightarrow> Inl LinAlgError
      | Some p \<Rightarrow>
          let M1 = M[k := M ! p, p := M ! k];
              piv = map (\<lambda>x. x / (M1 ! k ! k)) (M1 ! k)
          in Inr (map (\<lambda>i. if i = k then piv else map2 (\<lambda>x y. x - (M1 ! i ! k) * y) (M1 ! i) piv)
                    [0..<length M1]))"

fun gj :: "nat list \<Rightarrow> matrix \<Rightarrow> error + matrix" where
  "gj [] M = Inr M"
| "gj (k # ks) M = ebind (gj_step k M) (gj ks)"

definition exact_solve :: "matrix \<Rightarrow> matrix \<Rightarrow> error + matrix" where
  "exact_solve A B =
     (if list_all (\<lambda>r. length r = length A) A then
        if length B = length A then
          ebind (gj [0..<length A] (map2 (@) A B)) (\<lambda>M. Inr (map (drop (length A)) M))
        else Inl ValueError
      else Inl LinAlgError)"

subsection \<open>Example: the chain \<open>param \<rightarrow> a \<rightarrow> b\<close>\<close>

text \<open>
  Two components in the workflow of the driver: \<open>c1\<close> with the input \<open>param\<close> (the parameter
  \<open>c1.param\<close>) and the output \<open>a\<close>, \<open>da/dparam = 2\<close>; \<open>c2\<close> with the input \<open>x\<close>, connected to
  \<open>c1.a\<close> without units, and the output \<open>b\<close>, \<open>db/dx = 3\<close>. The objective is \<open>c2.b\<close>.
\<close>

definition chain_scope :: scope where
  "chain_scope =
     \<lparr>connections_to = (\<lambda>n. if n = ''c2.x'' then [(''c1.a'', ''c2.x'')] else []),
      get_expr = [''c1.a'' \<mapsto> \<lparr>refs = [''c1.a''], evaluate_gradient = (\<lambda>w. [''c1.a'' \<mapsto> 1]),
                               get_metadata_units = []\<rparr>]\<rparr>"

definition chain_driver :: driver where
  "chain_driver =
     Driver ''driver'' False False [''c1.param''] []
       [(''c1'', ([''param''], [''a''])), (''c2'', ([''x''], [''b'']))]
       [Component ''c1'' (Some [''a'' \<mapsto> [''param'' \<mapsto> 2]]),
        Component ''c2'' (Some [''b'' \<mapsto> [''x'' \<mapsto> 3]])]"

definition chain_problem :: problem where
  "chain_problem =
     \<lparr>parent = chain_driver, parent_scope = chain_scope,
      get_objectives = [(''c2.b'', \<lambda>wrt. [(''c2.b'', 1)])],
      get_constraints = []\<rparr>"

text \<open>The differentiator as \<open>__init__\<close> leaves it, with the names of the parent class.\<close>

definition chain_self :: "mode \<Rightarrow> analytic" where
  "chain_self m =
     \<lparr>LHS = zeros 0 0, RHS = zeros 0 0, EQS = zeros 0 0, EQS_zero = zeros 0 0, gradient = zeros 0 0,
      var_list = [], param_names = [''c1.param''], function_names = [''c2.b''], mode = m\<rparr>"

text \<open>\<dots> and as \<open>setup\<close> leaves it.\<close>

definition chain_ready :: "mode \<Rightarrow> analytic" where
  "chain_ready m =
     \<lparr>LHS = [[0, 0], [0, 0]], RHS = [[0], [0]], EQS = [[0, 1]], EQS_zero = [[0]], gradient = [[0]],
      var_list = [''c1.a'', ''c2.b''], param_names = [''c1.param''], function_names = [''c2.b''],
      mode = m\<rparr>"

text \<open>\<dots> and as \<open>calc_gradient\<close> leaves it.\<close>

definition chain_done :: "mode \<Rightarrow> analytic" where
  "chain_done m = (chain_ready m)\<lparr>LHS := [[1, 0], [- 3, 1]], RHS := [[2], [0]], gradient := [[6]]\<rparr>"

text \<open>The chain as \<open>setup\<close> leaves it in adjoint mode: the unknowns are the inputs.\<close>

definition adjoint_ready :: analytic where
  "adjoint_ready =
     \<lparr>LHS = [[0, 0], [0, 0]], RHS = [[0], [0]], EQS = [[0, 0]], EQS_zero = [[0]], gradient = [[0]],
      var_list = [''c1.param'', ''c2.x''], param_names = [''c1.param''], function_names = [''c2.b''],
      mode = adjoint\<rparr>"

definition exact_env :: env where
  "exact_env = \<lparr>convert_units = (\<lambda>v u t. Inr v), linalg_solve = exact_solve\<rparr>"

subsection \<open>Example: the chain with a unit conversion\<close>

text \<open>The chain, with the unit \<open>m\<close> on \<open>c1.a\<close> and the unit \<open>cm\<close> on \<open>c2.x\<close>, and a
  \<open>convert_units\<close> whose factor between the two is \<open>k\<close>.\<close>

definition units_scope :: scope where
  "units_scope =
     \<lparr>connections_to = (\<lambda>n. if n = ''c2.x'' then [(''c1.a'', ''c2.x'')] else []),
      get_expr = [''c1.a'' \<mapsto> \<lparr>refs = [''c1.a''], evaluate_gradient = (\<lambda>w. [''c1.a'' \<mapsto> 1]),
                               get_metadata_units = [(''c1.a'', Some ''m'')]\<rparr>,
                  ''c2.x'' \<mapsto> \<lparr>refs = [''c2.x''], evaluate_gradient = (\<lambda>w. [''c2.x'' \<mapsto> 1]),
                               get_metadata_units = [(''c2.x'', Some ''cm'')]\<rparr>]\<rparr>"

definition units_problem :: problem where
  "units_problem = chain_problem\<lparr>parent_scope := units_scope\<rparr>"

definition factor_env :: "real \<Rightarrow> env" where
  "factor_env k = \<lparr>convert_units = (\<lambda>v u t. Inr (v * k)), linalg_solve = exact_solve\<rparr>"

subsection \<open>Example: a solver whose dependent variable is a connected input\<close>

text \<open>
  A nested solver with the parameter \<open>c.x\<close> and the equality constraint \<open>e.z = c.x\<close>, so
  that the code builds \<open>solver_dict = {'c.x': 'e.z'}\<close>: \<open>c.x\<close> is \<open>indep\<close> and \<open>e.z\<close> is \<open>dep\<close>.
  In the solver's workflow are \<open>f\<close> (input \<open>p\<close>, the parameter \<open>f.p\<close>; output \<open>v\<close>,
  \<open>dv/dp = 2\<close>) and \<open>e\<close> (input \<open>z\<close>, connected to \<open>f.v\<close>; output \<open>w\<close>, \<open>dw/dz = 3\<close>).
\<close>

definition dep_solver :: driver where
  "dep_solver =
     Driver ''solver'' True False [''c.x''] [[''c.x'', ''e.z'']]
       [(''f'', ([''p''], [''v''])), (''e'', ([''z''], [''w'']))]
       [Component ''f'' (Some [''v'' \<mapsto> [''p'' \<mapsto> 2]]),
        Component ''e'' (Some [''w'' \<mapsto> [''z'' \<mapsto> 3]])]"

definition dep_driver :: driver where
  "dep_driver =
     Driver ''driver'' False False [''f.p''] [] [(''solver'', ([], []))] [DriverNode ''solver'' dep_solver]"

definition dep_scope :: scope where
  "dep_scope =
     \<lparr>connections_to = (\<lambda>n. if n = ''e.z'' then [(''f.v'', ''e.z'')] else []),
      get_expr = [''f.v'' \<mapsto> \<lparr>refs = [''f.v''], evaluate_gradient = (\<lambda>w. [''f.v'' \<mapsto> 1]),
                               get_metadata_units = []\<rparr>]\<rparr>"

definition dep_problem :: problem where
  "dep_problem = \<lparr>parent = dep_driver, parent_scope = dep_scope, get_objectives = [], get_constraints = []\<rparr>"

definition dep_self :: analytic where
  "dep_self =
     \<lparr>LHS = zeros 0 0, RHS = zeros 0 0, EQS = zeros 0 0, EQS_zero = zeros 0 0, gradient = zeros 0 0,
      var_list = [], param_names = [''f.p''], function_names = [], mode = direct\<rparr>"

definition dep_ready :: analytic where
  "dep_ready =
     \<lparr>LHS = [[0, 0], [0, 0]], RHS = [[0], [0]], EQS = [], EQS_zero = [], gradient = [],
      var_list = [''f.v'', ''e.w''], param_names = [''f.p''], function_names = [], mode = direct\<rparr>"

subsection \<open>Example: a sub-model whose boundary input is a parameter\<close>

text \<open>The workflow of the driver holds one assembly \<open>sub\<close>, run by a \<open>Run_Once\<close> driver with
  an empty workflow; its boundary input \<open>x\<close> is the parameter \<open>sub.x\<close>.\<close>

definition sub_driver :: driver where
  "sub_driver =
     Driver ''driver'' False False [''sub.x''] [] [(''sub'', ([''x''], []))]
       [AssemblyNode ''sub'' ''sub'' \<lparr>connections_to = (\<lambda>n. []), get_expr = Map.empty\<rparr>
          (Driver ''sub.driver'' False True [] [] [] [])]"

definition sub_problem :: problem where
  "sub_problem =
     \<lparr>parent = sub_driver, parent_scope = \<lparr>connections_to = (\<lambda>n. []), get_expr = Map.empty\<rparr>,
      get_objectives = [], get_constraints = []\<rparr>"

definition sub_self :: analytic where
  "sub_self =
     \<lparr>LHS = zeros 0 0, RHS = zeros 0 0, EQS = zeros 0 0, EQS_zero = zeros 0 0, gradient = zeros 0 0,
      var_list = [], param_names = [''sub.x''], function_names = [], mode = direct\<rparr>"

definition sub_ready :: analytic where
  "sub_ready =
     \<lparr>LHS = [[0]], RHS = [[0]], EQS = [], EQS_zero = [], gradient = [],
      var_list = [''sub.x''], param_names = [''sub.x''], function_names = [], mode = direct\<rparr>"

subsection \<open>Examples: nested drivers without solver capability\<close>

text \<open>The chain followed by a nested driver \<open>opt\<close> that is no solver; and a workflow of a
  sub-model whose driver is not \<open>Run_Once\<close>, followed by \<open>opt\<close>.\<close>

definition opt_node :: node where
  "opt_node = DriverNode ''opt'' (Driver ''opt'' False False [] [] [] [])"

definition opt_driver :: driver where
  "opt_driver =
     Driver ''driver'' False False [''c1.param''] []
       [(''c1'', ([''param''], [''a''])), (''c2'', ([''x''], [''b''])), (''opt'', ([], []))]
       [Component ''c1'' (Some [''a'' \<mapsto> [''param'' \<mapsto> 2]]),
        Component ''c2'' (Some [''b'' \<mapsto> [''x'' \<mapsto> 3]]),
        opt_node]"

definition opt_problem :: problem where
  "opt_problem = chain_problem\<lparr>parent := opt_driver\<rparr>"

definition clash_driver :: driver where
  "clash_driver =
     Driver ''driver'' False False [] [] [(''sub'', ([], [])), (''opt'', ([], []))]
       [AssemblyNode ''sub'' ''sub'' \<lparr>connections_to = (\<lambda>n. []), get_expr = Map.empty\<rparr>
          (Driver ''sub.driver'' False False [] [] [] []),
        opt_node]"

subsection \<open>Example: a solver that couples a component with itself\<close>

text \<open>
  A nested solver iterates the input \<open>c.x\<close> (its parameter) until \<open>c.y = c.x\<close>; the component
  \<open>c\<close> has the inputs \<open>p\<close> (the parameter \<open>c.p\<close> of the differentiated driver) and \<open>x\<close> and the
  output \<open>y\<close>, with \<open>dy/dp = 2\<close> and \<open>dy/dx = 1/2\<close>.
\<close>

definition loop_solver :: driver where
  "loop_solver =
     Driver ''solver'' True False [''c.x''] [[''c.y'', ''c.x'']]
       [(''c'', ([''p'', ''x''], [''y'']))]
       [Component ''c'' (Some [''y'' \<mapsto> [''p'' \<mapsto> 2, ''x'' \<mapsto> 1 / 2]])]"

definition loop_driver :: driver where
  "loop_driver =
     Driver ''driver'' False False [''c.p''] [] [(''solver'', ([], []))] [DriverNode ''solver'' loop_solver]"

definition loop_problem :: problem where
  "loop_problem =
     \<lparr>parent = loop_driver, parent_scope = \<lparr>connections_to = (\<lambda>n. []), get_expr = Map.empty\<rparr>,
      get_objectives = [], get_constraints = []\<rparr>"

definition loop_self :: analytic where
  "loop_self =
     \<lparr>LHS = zeros 0 0, RHS = zeros 0 0, EQS = zeros 0 0, EQS_zero = zeros 0 0, gradient = zeros 0 0,
      var_list = [], param_names = [''c.p''], function_names = [], mode = direct\<rparr>"

definition loop_ready :: analytic where
  "loop_ready =
     \<lparr>LHS = [[0]], RHS = [[0]], EQS = [], EQS_zero = [], gradient = [],
      var_list = [''c.y''], param_names = [''c.p''], function_names = [], mode = direct\<rparr>"

text \<open>The chain after the row of \<open>c1.a\<close>, and after the whole assembly pass.\<close>

definition chain_half :: analytic where
  "chain_half = (chain_ready direct)\<lparr>LHS := [[1, 0], [0, 0]], RHS := [[2], [0]]\<rparr>"

definition chain_full :: analytic where
  "chain_full = (chain_ready direct)\<lparr>LHS := [[1, 0], [- 3, 1]], RHS := [[2], [0]]\<rparr>"

subsection \<open>Notions of the specification\<close>

text \<open>What \<open>setup\<close> reads of \<open>self\<close>: the names of the parent class and the mode.\<close>

definition same_names :: "analytic \<Rightarrow> analytic \<Rightarrow> bool" where
  "same_names a b \<longleftrightarrow> param_names a = param_names b \<and> function_names a = function_names b \<and> mode a = mode b"

text \<open>The contribution of one side of a constraint's gradient to a column, in the spec's
  words: the sum of the partial derivatives routed to column \<open>j\<close> of \<open>EQS_zero\<close> (the names
  that are the \<open>j\<close>-th parameter) and of \<open>EQS\<close> (the names that are no parameter and are the
  \<open>j\<close>-th unknown).\<close>

definition routed_zero :: "analytic \<Rightarrow> (name \<times> real) list \<Rightarrow> nat \<Rightarrow> real" where
  "routed_zero self items j =
     sum_list (map snd (filter (\<lambda>item. list_index (param_names self) (fst item) = Inr j) items))"

definition routed_var :: "analytic \<Rightarrow> (name \<times> real) list \<Rightarrow> nat \<Rightarrow> real" where
  "routed_var self items j =
     sum_list (map snd (filter (\<lambda>item. fst item \<notin> set (param_names self)
                                      \<and> list_index (var_list self) (fst item) = Inr j) items))"

text \<open>The rule that handles an input of a terminal component, by the precedence of the
  code: (a) the input is a parameter; (b) its full name is a key of the dictionary handed
  down by the enclosing solver; (c) its connection is resolved upstream.\<close>

datatype rule = Parameter | Solver_pair | Upstream

definition classify :: "analytic \<Rightarrow> (name \<rightharpoonup> name) option \<Rightarrow> name \<Rightarrow> rule" where
  "classify self solver_conns input_full =
     (if input_full \<in> set (param_names self) then Parameter
      else if (case solver_conns of None \<Rightarrow> False | Some d \<Rightarrow> d input_full \<noteq> None) then Solver_pair
      else Upstream)"

text \<open>A workflow contains a nested driver that lacks solver capability: a driver node that
  is no solver, in the workflow itself, in the workflow of a nested solver or in the workflow
  of the driver of a sub-model.\<close>

fun unsupported :: "node \<Rightarrow> bool" where
  "unsupported (Component _ _) = False"
| "unsupported (DriverNode _ (Driver _ solver _ _ _ _ nodes)) = (\<not> solver \<or> list_ex unsupported nodes)"
| "unsupported (AssemblyNode _ _ _ (Driver _ _ _ _ _ _ nodes)) = list_ex unsupported nodes"

text \<open>A call raises.\<close>

definition is_error :: "error + 'a \<Rightarrow> bool" where
  "is_error r = (case r of Inl _ \<Rightarrow> True | Inr _ \<Rightarrow> False)"

text \<open>The signal of a nested driver that is no solver.\<close>

definition only_solvers :: error where
  "only_solvers = NotImplementedError ''Only nested solvers are supported''"

text \<open>The column of \<open>LHS\<close> that a row's entry is written to (none for an entry of \<open>RHS\<close>, or
  when the entry cannot be evaluated).\<close>

definition entry_column :: "error + entry \<times> locals \<Rightarrow> nat option" where
  "entry_column r = (case r of Inr (LHS_entry j v, L) \<Rightarrow> Some j | _ \<Rightarrow> None)"

text \<open>The two lists that the assembler reads of \<open>self\<close>; and what a pass from equation number
  \<open>i\<close> to \<open>i'\<close> keeps: the rows before \<open>i\<close> and the two lists.\<close>

definition same_lists :: "analytic \<Rightarrow> analytic \<Rightarrow> bool" where
  "same_lists a b \<longleftrightarrow> var_list a = var_list b \<and> param_names a = param_names b"

definition kept :: "nat \<Rightarrow> analytic \<Rightarrow> nat \<Rightarrow> analytic \<Rightarrow> bool" where
  "kept i self i' s \<longleftrightarrow> i \<le> i' \<and> (\<forall>r < i. LHS s ! r = LHS self ! r) \<and> same_lists s self"

section \<open>Properties\<close>

subsection \<open>Basic facts\<close>

lemma ebind_Inl [simp]: "ebind (Inl e) f = Inl e"
  by (simp add: ebind_def)

lemma ebind_Inr [simp]: "ebind (Inr x) f = f x"
  by (simp add: ebind_def)

lemma ebind_eq_Inr: "ebind m f = Inr y \<longleftrightarrow> (\<exists>x. m = Inr x \<and> f x = Inr y)"
  by (cases m) simp_all

lemma list_index_from_absent: "x \<notin> set xs \<Longrightarrow> list_index_from xs x n = Inl ValueError"
  by (induction xs arbitrary: n) auto

lemma list_index_from_present:
  "x \<in> set xs \<Longrightarrow> \<exists>i. list_index_from xs x n = Inr (n + i) \<and> i < length xs \<and> xs ! i = x"
proof (induction xs arbitrary: n)
  case Nil
  then show ?case by simp
next
  case (Cons y ys)
  show ?case
  proof (cases "y = x")
    case True
    then show ?thesis by auto
  next
    case False
    with Cons.prems have "x \<in> set ys" by simp
    from Cons.IH [OF this, of "Suc n"] obtain i
      where "list_index_from ys x (Suc n) = Inr (Suc n + i)" "i < length ys" "ys ! i = x" by blast
    with False show ?thesis by (intro exI [of _ "Suc i"]) simp
  qed
qed

lemma index_absent: "x \<notin> set xs \<Longrightarrow> list_index xs x = Inl ValueError"
  by (simp add: list_index_def list_index_from_absent)

lemma index_present: "x \<in> set xs \<Longrightarrow> \<exists>i. list_index xs x = Inr i \<and> i < length xs \<and> xs ! i = x"
  using list_index_from_present [of x xs 0] by (simp add: list_index_def)

lemma index_Inl: "list_index xs x = Inl e \<Longrightarrow> e = ValueError"
  by (metis index_absent index_present Inl_Inr_False sum.inject(1))

lemma index_Inr_nth: "list_index xs x = Inr i \<Longrightarrow> i < length xs \<and> xs ! i = x"
  by (metis index_absent index_present Inl_Inr_False sum.inject(2))

lemmas eval_simps = getitem_def list_index_def zeros_def mat_set_def mat_get_def mat_row_def mat_add_at_def
  edge_side_def get_node_def read_local_def attr_of_def first_def pop_def unit_converted_def open_row_def
  comp_input_entry_def comp_upstream_entry_def assy_input_entry_def assy_output_entry_def unbound_def dot_def mat_add_def solve_def
  sign_def constraint_row_def

subsection \<open>The chain example\<close>

lemma chain_ready_mode: "mode (chain_ready m) = m"
  by (simp add: chain_ready_def)

lemma chain_problem_parent:
  "parent chain_problem = chain_driver" "parent_scope chain_problem = chain_scope"
  by (simp_all add: chain_problem_def)

lemma chain_setup: "setup_analytic chain_problem (chain_self direct) = Inr (chain_ready direct)"
  by (simp add: setup_analytic_def chain_problem_def chain_self_def chain_ready_def chain_driver_def
      eval_simps)

lemma chain_assemble:
  "assemble_direct E chain_scope chain_driver 0 [] None (chain_ready direct) =
     Inr (2, (chain_ready direct)\<lparr>LHS := [[1, 0], [- 3, 1]], RHS := [[2], [0]]\<rparr>)"
  by (simp add: chain_scope_def chain_driver_def chain_ready_def eval_simps)

lemma chain_unique:
  assumes "dot [[1, 0], [- 3, 1]] X = Inr [[2], [0]]" and "list_all (\<lambda>r. length r = 1) X"
  shows "X = [[2], [6]]"
proof -
  from assms(1) have "length X = 2"
    by (auto simp: dot_def split: if_splits)
  then obtain r0 r1 where X: "X = [r0, r1]"
    by (auto simp: length_Suc_conv numeral_2_eq_2)
  with assms(2) obtain a b where "r0 = [a]" "r1 = [b]"
    by (auto simp: length_Suc_conv)
  with X assms(1) show ?thesis
    by (auto simp: dot_def)
qed

lemma exact_solve_chain: "exact_solve [[1, 0], [- 3, 1]] [[2], [0]] = Inr [[2], [6]]"
  by (simp add: exact_solve_def gj_step_def find_pivot_def upt_rec)

text \<open>
  C1. For the chain \<open>param \<rightarrow> a \<rightarrow> b\<close> with \<open>da/dparam = 2\<close>, \<open>db/da = 3\<close>, no unit conversion
  and the objective \<open>b\<close>: \<open>setup\<close> orders the unknowns \<open>a, b\<close>, the assembly pass leaves
  \<open>LHS = [[1,0],[-3,1]]\<close> and \<open>RHS = [[2],[0]]\<close>, whatever solves \<open>LHS \<cdot> X = RHS\<close> is
  \<open>X = [[2],[6]]\<close> (\<open>a = 2\<close>, \<open>b = 6\<close>), and after \<open>calc_gradient\<close> the derivative of \<open>b\<close>
  with respect to \<open>param\<close> is \<open>6 = 3 \<cdot> 2\<close>. The linear solver is any function that returns
  a solution of this system of the shape of \<open>RHS\<close>.
\<close>

theorem chain_total_derivative:
  assumes "linalg_solve E [[1, 0], [- 3, 1]] [[2], [0]] = Inr X"
    and "dot [[1, 0], [- 3, 1]] X = Inr [[2], [0]]"
    and "list_all (\<lambda>r. length r = 1) X"
  shows "var_list (chain_ready direct) = [''c1.a'', ''c2.b'']
     \<and> setup_analytic chain_problem (chain_self direct) = Inr (chain_ready direct)
     \<and> assemble_direct E chain_scope chain_driver 0 [] None (chain_ready direct) =
         Inr (2, (chain_ready direct)\<lparr>LHS := [[1, 0], [- 3, 1]], RHS := [[2], [0]]\<rparr>)
     \<and> X = [[2], [6]]
     \<and> calc_gradient E chain_problem False (chain_self direct) =
         Inr ((chain_ready direct)\<lparr>LHS := [[1, 0], [- 3, 1]], RHS := [[2], [0]], gradient := [[6]]\<rparr>)
     \<and> get_derivative ((chain_ready direct)\<lparr>LHS := [[1, 0], [- 3, 1]], RHS := [[2], [0]], gradient := [[6]]\<rparr>)
          ''c2.b'' ''c1.param'' = Inr (3 * 2)"
proof -
  have X: "X = [[2], [6]]"
    using assms(2,3) by (rule chain_unique)
  have "solve E ((chain_ready direct)\<lparr>LHS := [[1, 0], [- 3, 1]], RHS := [[2], [0]]\<rparr>) =
      Inr ((chain_ready direct)\<lparr>LHS := [[1, 0], [- 3, 1]], RHS := [[2], [0]], gradient := [[6]]\<rparr>)"
    using assms(1) by (simp add: solve_def X chain_ready_def dot_def mat_add_def)
  then have "calc_gradient E chain_problem False (chain_self direct) =
      Inr ((chain_ready direct)\<lparr>LHS := [[1, 0], [- 3, 1]], RHS := [[2], [0]], gradient := [[6]]\<rparr>)"
    by (simp add: calc_gradient_def chain_setup chain_assemble chain_problem_parent chain_ready_mode)
  moreover have "get_derivative
      ((chain_ready direct)\<lparr>LHS := [[1, 0], [- 3, 1]], RHS := [[2], [0]], gradient := [[6]]\<rparr>)
      ''c2.b'' ''c1.param'' = Inr (3 * 2)"
    by (simp add: get_derivative_def chain_ready_def list_index_def mat_get_def)
  moreover have "var_list (chain_ready direct) = [''c1.a'', ''c2.b'']"
    by (simp add: chain_ready_def)
  ultimately show ?thesis
    using X chain_setup chain_assemble by blast
qed

theorem chain_total_derivative_witness:
  "linalg_solve exact_env [[1, 0], [- 3, 1]] [[2], [0]] = Inr [[2], [6]]
   \<and> dot [[1, 0], [- 3, 1]] [[2], [6]] = Inr [[2], [0]]
   \<and> list_all (\<lambda>r. length r = 1) [[2], [6::real]]
   \<and> calc_gradient exact_env chain_problem False (chain_self direct) =
       Inr ((chain_ready direct)\<lparr>LHS := [[1, 0], [- 3, 1]], RHS := [[2], [0]], gradient := [[6]]\<rparr>)"
proof -
  have a: "linalg_solve exact_env [[1, 0], [- 3, 1]] [[2], [0]] = Inr [[2], [6]]"
    by (simp add: exact_env_def exact_solve_chain)
  have b: "dot [[1, 0], [- 3, 1]] [[2], [6]] = Inr [[2], [0]]"
    by (simp add: dot_def)
  have c: "list_all (\<lambda>r. length r = 1) [[2], [6::real]]"
    by simp
  from chain_total_derivative [OF a b c] a b c show ?thesis
    by blast
qed

subsection \<open>The accessors\<close>

text \<open>
  C7. \<open>get_derivative\<close> and \<open>get_gradient\<close> raise \<open>ValueError\<close> (the not-found condition of
  \<open>list.index\<close>) for a name that is absent from its list, and never return a zero or a row
  of zeros for it. For names that are present, and a gradient matrix that has the entry,
  \<open>get_derivative\<close> returns the entry at the function's row and the parameter's column and
  \<open>get_gradient\<close> returns the function's row.
\<close>

theorem accessors_not_found_or_entry:
  "(wrt \<notin> set (param_names self) \<longrightarrow> get_derivative self output_name wrt = Inl ValueError)
   \<and> (output_name \<notin> set (function_names self) \<longrightarrow>
        get_derivative self output_name wrt = Inl ValueError
        \<and> get_gradient self (Some output_name) = Inl ValueError)
   \<and> get_gradient self None = Inl ValueError
   \<and> (wrt \<in> set (param_names self) \<and> output_name \<in> set (function_names self) \<longrightarrow>
        (\<exists>i_func i_param.
           list_index (function_names self) output_name = Inr i_func
           \<and> list_index (param_names self) wrt = Inr i_param
           \<and> function_names self ! i_func = output_name \<and> param_names self ! i_param = wrt
           \<and> (i_func < length (gradient self) \<longrightarrow>
                get_gradient self (Some output_name) = Inr (gradient self ! i_func)
                \<and> (i_param < length (gradient self ! i_func) \<longrightarrow>
                     get_derivative self output_name wrt = Inr (gradient self ! i_func ! i_param)))))"
proof (intro conjI impI)
  assume "wrt \<notin> set (param_names self)"
  then show "get_derivative self output_name wrt = Inl ValueError"
    by (simp add: get_derivative_def index_absent)
next
  assume "output_name \<notin> set (function_names self)"
  then show "get_derivative self output_name wrt = Inl ValueError"
    by (cases "list_index (param_names self) wrt")
      (auto simp: get_derivative_def index_absent dest: index_Inl)
next
  assume "output_name \<notin> set (function_names self)"
  then show "get_gradient self (Some output_name) = Inl ValueError"
    by (simp add: get_gradient_def index_absent)
next
  show "get_gradient self None = Inl ValueError"
    by (simp add: get_gradient_def)
next
  assume "wrt \<in> set (param_names self) \<and> output_name \<in> set (function_names self)"
  then obtain i j where i: "list_index (function_names self) output_name = Inr i"
      "function_names self ! i = output_name"
    and j: "list_index (param_names self) wrt = Inr j" "param_names self ! j = wrt"
    using index_present by metis
  then show "\<exists>i_func i_param.
           list_index (function_names self) output_name = Inr i_func
           \<and> list_index (param_names self) wrt = Inr i_param
           \<and> function_names self ! i_func = output_name \<and> param_names self ! i_param = wrt
           \<and> (i_func < length (gradient self) \<longrightarrow>
                get_gradient self (Some output_name) = Inr (gradient self ! i_func)
                \<and> (i_param < length (gradient self ! i_func) \<longrightarrow>
                     get_derivative self output_name wrt = Inr (gradient self ! i_func ! i_param)))"
    by (intro exI [of _ i] exI [of _ j])
      (simp add: get_derivative_def get_gradient_def mat_get_def mat_row_def)
qed

theorem accessors_not_found_or_entry_witness:
  "get_derivative (chain_done direct) ''c2.b'' ''c1.nope'' = Inl ValueError
   \<and> get_derivative (chain_done direct) ''c2.missing'' ''c1.param'' = Inl ValueError
   \<and> get_gradient (chain_done direct) (Some ''c2.missing'') = Inl ValueError
   \<and> get_derivative (chain_done direct) ''c2.b'' ''c1.param'' = Inr 6
   \<and> get_gradient (chain_done direct) (Some ''c2.b'') = Inr [6]"
proof -
  let ?S = "chain_done direct"
  have S: "param_names ?S = [''c1.param'']" "function_names ?S = [''c2.b'']" "gradient ?S = [[6]]"
    by (simp_all add: chain_done_def chain_ready_def)
  have absent: "''c1.nope'' \<notin> set (param_names ?S)" "''c2.missing'' \<notin> set (function_names ?S)"
    by (simp_all add: S)
  have present: "''c1.param'' \<in> set (param_names ?S) \<and> ''c2.b'' \<in> set (function_names ?S)"
    by (simp add: S)
  have idx: "list_index (function_names ?S) ''c2.b'' = Inr 0" "list_index (param_names ?S) ''c1.param'' = Inr 0"
    by (simp_all add: S list_index_def)
  from accessors_not_found_or_entry [of "''c1.nope''" ?S "''c2.b''"] absent(1)
  have 1: "get_derivative ?S ''c2.b'' ''c1.nope'' = Inl ValueError"
    by blast
  from accessors_not_found_or_entry [of "''c1.param''" ?S "''c2.missing''"] absent(2)
  have 2: "get_derivative ?S ''c2.missing'' ''c1.param'' = Inl ValueError"
    "get_gradient ?S (Some ''c2.missing'') = Inl ValueError"
    by blast+
  from accessors_not_found_or_entry [of "''c1.param''" ?S "''c2.b''"] present idx
  have 3: "get_derivative ?S ''c2.b'' ''c1.param'' = Inr 6" "get_gradient ?S (Some ''c2.b'') = Inr [6]"
    by (auto simp: S)
  from 1 2 3 show ?thesis
    by blast
qed

subsection \<open>The enumeration is reproducible\<close>

lemma route_objective_frame:
  "route_objective i items self = Inr self' \<Longrightarrow>
     var_list self' = var_list self \<and> same_names self' self
     \<and> LHS self' = LHS self \<and> RHS self' = RHS self \<and> gradient self' = gradient self"
  by (induction items arbitrary: self) (auto simp: ebind_eq_Inr same_names_def split: if_splits)

lemma route_constraint_frame:
  "route_constraint i f items self = Inr self' \<Longrightarrow>
     var_list self' = var_list self \<and> same_names self' self
     \<and> LHS self' = LHS self \<and> RHS self' = RHS self \<and> gradient self' = gradient self"
  by (induction items arbitrary: self) (auto simp: ebind_eq_Inr same_names_def Let_def split: if_splits)

lemma setup_objectives_frame:
  "setup_objectives i wrt objs self = Inr (i', self') \<Longrightarrow>
     var_list self' = var_list self \<and> same_names self' self
     \<and> LHS self' = LHS self \<and> RHS self' = RHS self \<and> gradient self' = gradient self"
proof (induction objs arbitrary: i self)
  case Nil
  then show ?case by (simp add: same_names_def)
next
  case (Cons a objs)
  obtain n e where a: "a = (n, e)" by (cases a)
  from Cons.prems obtain s1 where s1: "route_objective i (e wrt) self = Inr s1"
      "setup_objectives (i + 1) wrt objs s1 = Inr (i', self')"
    by (auto simp: a ebind_eq_Inr)
  from route_objective_frame [OF s1(1)] Cons.IH [OF s1(2)] show ?case
    by (simp add: same_names_def)
qed

lemma setup_constraints_frame:
  "setup_constraints i wrt cons self = Inr (i', self') \<Longrightarrow>
     var_list self' = var_list self \<and> same_names self' self
     \<and> LHS self' = LHS self \<and> RHS self' = RHS self \<and> gradient self' = gradient self"
proof (induction cons arbitrary: i self)
  case Nil
  then show ?case by (simp add: same_names_def)
next
  case (Cons a cons)
  obtain n c where a: "a = (n, c)" by (cases a)
  obtain l r cmp where c: "c wrt = (l, r, cmp)" by (cases "c wrt")
  from Cons.prems obtain s1 s2 where s: "route_constraint i (sign cmp) l self = Inr s1"
      "route_constraint i (- sign cmp) r s1 = Inr s2"
      "setup_constraints (i + 1) wrt cons s2 = Inr (i', self')"
    by (auto simp: a c ebind_eq_Inr constraint_row_def)
  from route_constraint_frame [OF s(1)] route_constraint_frame [OF s(2)] Cons.IH [OF s(3)] show ?case
    by (simp add: same_names_def)
qed

lemma setup_depends:
  assumes "same_names a b"
  shows "setup_analytic P a = setup_analytic P b"
proof -
  obtain l r e z g v p f m where a: "a = \<lparr>LHS = l, RHS = r, EQS = e, EQS_zero = z, gradient = g, var_list = v,
      param_names = p, function_names = f, mode = m\<rparr>" by (cases a)
  obtain l' r' e' z' g' v' where b: "b = \<lparr>LHS = l', RHS = r', EQS = e', EQS_zero = z', gradient = g', var_list = v',
      param_names = p, function_names = f, mode = m\<rparr>" using assms by (cases b) (simp add: a same_names_def)
  show ?thesis by (simp add: a b setup_analytic_def)
qed

lemma setup_result:
  assumes "setup_analytic P self = Inr self1"
  shows "edge_counter (parent P) (if mode self = adjoint then 0 else 1) [] [] = Inr (var_list self1)
     \<and> same_names self1 self"
proof -
  from assms obtain vl i1 s1 i2 where
      vl: "edge_counter (parent P) (if mode self = adjoint then 0 else 1) [] [] = Inr vl"
    and o: "setup_objectives 0 (vl @ param_names self) (get_objectives P)
         (self\<lparr>var_list := vl, LHS := zeros (length vl) (length vl), RHS := zeros (length vl) (length (param_names self)),
           EQS := zeros (length (function_names self)) (length vl),
           EQS_zero := zeros (length (function_names self)) (length (param_names self)),
           gradient := zeros (length (function_names self)) (length (param_names self))\<rparr>) = Inr (i1, s1)"
    and c: "setup_constraints i1 (vl @ param_names self) (get_constraints P) s1 = Inr (i2, self1)"
    by (auto simp: setup_analytic_def ebind_eq_Inr Let_def)
  from setup_objectives_frame [OF o] setup_constraints_frame [OF c] vl show ?thesis
    by (simp add: same_names_def)
qed

text \<open>
  C9. Running the enumeration twice on an unchanged model gives the same variable list. The
  enumerator is a function of the edge dictionaries, the workflow and the mode; the list it
  appends to is an attribute of \<open>self\<close>, which \<open>setup\<close> empties first. So when \<open>setup\<close> has
  run, its variable list is the enumeration of the model from the empty list, and running
  \<open>setup\<close> again on the state it left reproduces that state: the same variable list, with
  the same length, names and order.
\<close>

theorem enumeration_deterministic:
  assumes "setup_analytic P self = Inr self1"
  shows "edge_counter (parent P) (if mode self = adjoint then 0 else 1) [] [] = Inr (var_list self1)
     \<and> setup_analytic P self1 = Inr self1"
  using setup_result [OF assms] setup_depends [of self1 self P] assms by auto

theorem enumeration_deterministic_witness:
  "setup_analytic chain_problem (chain_self direct) = Inr (chain_ready direct)
   \<and> edge_counter (parent chain_problem) 1 [] [] = Inr [''c1.a'', ''c2.b'']
   \<and> setup_analytic chain_problem (chain_ready direct) = Inr (chain_ready direct)"
proof -
  have m: "mode (chain_self direct) = direct"
    by (simp add: chain_self_def)
  have v: "var_list (chain_ready direct) = [''c1.a'', ''c2.b'']"
    by (simp add: chain_ready_def)
  from enumeration_deterministic [OF chain_setup]
  have "edge_counter (parent chain_problem) 1 [] [] = Inr [''c1.a'', ''c2.b'']"
    and "setup_analytic chain_problem (chain_ready direct) = Inr (chain_ready direct)"
    unfolding m v by simp_all
  with chain_setup show ?thesis
    by blast
qed

subsection \<open>The rows of the constraints\<close>

lemma mat_add_at_Inr:
  "mat_add_at M i j v = Inr M' \<Longrightarrow>
     i < length M \<and> j < length (M ! i) \<and> length (M' ! i) = length (M ! i)
     \<and> (\<forall>c < length (M ! i). M' ! i ! c = (if c = j then M ! i ! j + v else M ! i ! c))"
  by (auto simp: mat_add_at_def mat_get_def mat_set_def ebind_eq_Inr split: if_splits)

lemma routed_names:
  "param_names a = param_names b \<Longrightarrow> var_list a = var_list b \<Longrightarrow>
     routed_zero a = routed_zero b \<and> routed_var a = routed_var b"
  by (auto simp: routed_zero_def routed_var_def fun_eq_iff)

lemma route_constraint_names:
  "route_constraint i f items self = Inr self' \<Longrightarrow>
     var_list self' = var_list self \<and> param_names self' = param_names self"
  by (induction items arbitrary: self) (auto simp: ebind_eq_Inr Let_def split: if_splits)

lemma route_constraint_accumulates:
  "route_constraint i f items self = Inr self' \<Longrightarrow>
     length (EQS self' ! i) = length (EQS self ! i)
     \<and> length (EQS_zero self' ! i) = length (EQS_zero self ! i)
     \<and> (\<forall>j < length (EQS self ! i). EQS self' ! i ! j = EQS self ! i ! j + f * routed_var self items j)
     \<and> (\<forall>j < length (EQS_zero self ! i).
           EQS_zero self' ! i ! j = EQS_zero self ! i ! j + f * routed_zero self items j)"
proof (induction items arbitrary: self)
  case Nil
  then show ?case by (simp add: routed_var_def routed_zero_def)
next
  case (Cons item items)
  obtain n v where item: "item = (n, v)" by (cases item)
  consider (param) "n \<in> set (param_names self)"
    | (var) "n \<notin> set (param_names self)" "n \<in> set (var_list self)"
    | (none) "n \<notin> set (param_names self)" "n \<notin> set (var_list self)"
    by blast
  then show ?case
  proof cases
    case param
    with Cons.prems obtain k M where k: "list_index (param_names self) n = Inr k"
      and M: "mat_add_at (EQS_zero self) i k (f * v) = Inr M"
      and rest: "route_constraint i f items (self\<lparr>EQS_zero := M\<rparr>) = Inr self'"
      by (auto simp: item ebind_eq_Inr Let_def)
    have r: "routed_zero (self\<lparr>EQS_zero := M\<rparr>) = routed_zero self"
      "routed_var (self\<lparr>EQS_zero := M\<rparr>) = routed_var self"
      using routed_names [of "self\<lparr>EQS_zero := M\<rparr>" self] by simp_all
    have z: "routed_zero self (item # items) j = (if j = k then v else 0) + routed_zero self items j" for j
      using k by (auto simp: routed_zero_def item)
    have w: "routed_var self (item # items) j = routed_var self items j" for j
      using param by (simp add: routed_var_def item)
    from Cons.IH [OF rest] mat_add_at_Inr [OF M] show ?thesis
      by (auto simp: r z w algebra_simps)
  next
    case var
    with Cons.prems obtain k M where k: "list_index (var_list self) n = Inr k"
      and M: "mat_add_at (EQS self) i k (f * v) = Inr M"
      and rest: "route_constraint i f items (self\<lparr>EQS := M\<rparr>) = Inr self'"
      by (auto simp: item ebind_eq_Inr Let_def)
    have r: "routed_zero (self\<lparr>EQS := M\<rparr>) = routed_zero self"
      "routed_var (self\<lparr>EQS := M\<rparr>) = routed_var self"
      using routed_names [of "self\<lparr>EQS := M\<rparr>" self] by simp_all
    have z: "routed_zero self (item # items) j = routed_zero self items j" for j
      using var(1) index_Inr_nth [of "param_names self" n j] by (auto simp: routed_zero_def item)
    have w: "routed_var self (item # items) j = (if j = k then v else 0) + routed_var self items j" for j
      using var k by (auto simp: routed_var_def item)
    from Cons.IH [OF rest] mat_add_at_Inr [OF M] show ?thesis
      by (auto simp: r z w algebra_simps)
  next
    case none
    with Cons.prems have rest: "route_constraint i f items self = Inr self'"
      by (simp add: item Let_def)
    have z: "routed_zero self (item # items) j = routed_zero self items j" for j
      using none(1) index_Inr_nth [of "param_names self" n j] by (auto simp: routed_zero_def item)
    have w: "routed_var self (item # items) j = routed_var self items j" for j
      using none index_Inr_nth [of "var_list self" n j] by (auto simp: routed_var_def item)
    from Cons.IH [OF rest] show ?thesis
      by (simp add: z w)
  qed
qed

lemma constraint_row_accumulates:
  assumes "constraint_row i (lhs, rhs, comparator) self = Inr self'"
  shows "(\<forall>j < length (EQS self ! i).
            EQS self' ! i ! j = EQS self ! i ! j
               + (sign comparator * routed_var self lhs j - sign comparator * routed_var self rhs j))
     \<and> (\<forall>j < length (EQS_zero self ! i).
            EQS_zero self' ! i ! j = EQS_zero self ! i ! j
               + (sign comparator * routed_zero self lhs j - sign comparator * routed_zero self rhs j))"
proof -
  from assms obtain s1 where 1: "route_constraint i (sign comparator) lhs self = Inr s1"
    and 2: "route_constraint i (- sign comparator) rhs s1 = Inr self'"
    by (auto simp: constraint_row_def ebind_eq_Inr)
  have r: "routed_zero s1 = routed_zero self" "routed_var s1 = routed_var self"
    using routed_names [of s1 self] route_constraint_names [OF 1] by simp_all
  from route_constraint_accumulates [OF 1] route_constraint_accumulates [OF 2] show ?thesis
    by (simp add: r)
qed

text \<open>
  C5. In the routing of a constraint's gradient into \<open>EQS\<close> and \<open>EQS_zero\<close> the sign is \<open>-1\<close>
  when the comparator contains \<open>>\<close> and \<open>+1\<close> otherwise, and every entry of the constraint's
  row receives \<open>sign \<cdot> \<partial>lhs - sign \<cdot> \<partial>rhs\<close> on top of what it held: the values are added,
  so a variable on both sides gets the sum of its contributions. Hence a constraint with a
  comparator such as \<open>>=\<close> contributes the negation of what the same constraint with \<open><=\<close>
  contributes.
\<close>

theorem constraint_sign_flip:
  assumes "constraint_row i_eq (lhs, rhs, c_gt) self = Inr s_gt"
    and "constraint_row i_eq (lhs, rhs, c_le) self = Inr s_le"
    and "CHR ''>'' \<in> set c_gt" and "CHR ''>'' \<notin> set c_le"
  shows "sign c_gt = - 1 \<and> sign c_le = 1
     \<and> (\<forall>j < length (EQS self ! i_eq).
          EQS s_le ! i_eq ! j = EQS self ! i_eq ! j + (routed_var self lhs j - routed_var self rhs j)
          \<and> EQS s_gt ! i_eq ! j = EQS self ! i_eq ! j - (routed_var self lhs j - routed_var self rhs j))
     \<and> (\<forall>j < length (EQS_zero self ! i_eq).
          EQS_zero s_le ! i_eq ! j = EQS_zero self ! i_eq ! j + (routed_zero self lhs j - routed_zero self rhs j)
          \<and> EQS_zero s_gt ! i_eq ! j = EQS_zero self ! i_eq ! j - (routed_zero self lhs j - routed_zero self rhs j))"
proof -
  have s: "sign c_gt = - 1" "sign c_le = 1"
    using assms(3,4) by (simp_all add: sign_def)
  from constraint_row_accumulates [OF assms(1)] constraint_row_accumulates [OF assms(2)] show ?thesis
    by (simp add: s)
qed

theorem constraint_sign_flip_witness:
  "constraint_row 0 ([(''c2.b'', 2), (''c1.param'', 4)], [(''c2.b'', 5)], ''>='') (chain_ready direct) =
     Inr ((chain_ready direct)\<lparr>EQS := [[0, 4]], EQS_zero := [[- 4]]\<rparr>)
   \<and> constraint_row 0 ([(''c2.b'', 2), (''c1.param'', 4)], [(''c2.b'', 5)], ''<='') (chain_ready direct) =
     Inr ((chain_ready direct)\<lparr>EQS := [[0, - 2]], EQS_zero := [[4]]\<rparr>)
   \<and> CHR ''>'' \<in> set ''>='' \<and> CHR ''>'' \<notin> set ''<=''
   \<and> sign ''>='' = - 1 \<and> sign ''<='' = 1
   \<and> routed_var (chain_ready direct) [(''c2.b'', 2), (''c1.param'', 4)] 1
        - routed_var (chain_ready direct) [(''c2.b'', 5)] 1 = - 3
   \<and> EQS ((chain_ready direct)\<lparr>EQS := [[0, - 2]], EQS_zero := [[4]]\<rparr>) ! 0 ! 1 = 1 + - 3
   \<and> EQS ((chain_ready direct)\<lparr>EQS := [[0, 4]], EQS_zero := [[- 4]]\<rparr>) ! 0 ! 1 = 1 - - 3"
proof -
  let ?S = "chain_ready direct"
  let ?lhs = "[(''c2.b'', 2), (''c1.param'', 4::real)]"
  let ?rhs = "[(''c2.b'', 5::real)]"
  have gt: "constraint_row 0 (?lhs, ?rhs, ''>='') ?S = Inr (?S\<lparr>EQS := [[0, 4]], EQS_zero := [[- 4]]\<rparr>)"
    by (simp add: chain_ready_def eval_simps)
  have le: "constraint_row 0 (?lhs, ?rhs, ''<='') ?S = Inr (?S\<lparr>EQS := [[0, - 2]], EQS_zero := [[4]]\<rparr>)"
    by (simp add: chain_ready_def eval_simps)
  have c: "CHR ''>'' \<in> set ''>=''" "CHR ''>'' \<notin> set ''<=''"
    by simp_all
  have r: "routed_var ?S ?lhs 1 - routed_var ?S ?rhs 1 = - 3"
    by (simp add: routed_var_def chain_ready_def list_index_def)
  have "length (EQS ?S ! 0) = 2" "EQS ?S ! 0 ! 1 = 1"
    by (simp_all add: chain_ready_def)
  with constraint_sign_flip [OF gt le c] r gt le c show ?thesis
    by simp
qed

subsection \<open>Unit conversion\<close>

lemma units_assemble:
  "assemble_direct (factor_env k) units_scope chain_driver 0 [] None (chain_ready direct) =
     Inr (2, (chain_ready direct)\<lparr>LHS := [[1, 0], [- (3 * k), 1]], RHS := [[2], [0]]\<rparr>)"
  by (simp add: units_scope_def factor_env_def chain_driver_def chain_ready_def eval_simps)

lemma exact_solve_units: "exact_solve [[1, 0], [- (3 * k), 1]] [[2], [0]] = Inr [[2], [3 * k * 2]]"
  by (simp add: exact_solve_def gj_step_def find_pivot_def upt_rec)

lemma units_problem_parent:
  "parent units_problem = chain_driver" "parent_scope units_problem = units_scope"
  by (simp_all add: units_problem_def chain_problem_def)

lemma units_setup: "setup_analytic units_problem (chain_self direct) = Inr (chain_ready direct)"
  using chain_setup by (simp add: setup_analytic_def units_problem_def)

lemma units_gradient:
  "calc_gradient (factor_env k) units_problem False (chain_self direct) =
     Inr ((chain_ready direct)\<lparr>LHS := [[1, 0], [- (3 * k), 1]], RHS := [[2], [0]], gradient := [[3 * k * 2]]\<rparr>)"
proof -
  have "solve (factor_env k) ((chain_ready direct)\<lparr>LHS := [[1, 0], [- (3 * k), 1]], RHS := [[2], [0]]\<rparr>) =
      Inr ((chain_ready direct)\<lparr>LHS := [[1, 0], [- (3 * k), 1]], RHS := [[2], [0]], gradient := [[3 * k * 2]]\<rparr>)"
    by (simp add: solve_def factor_env_def exact_solve_units chain_ready_def dot_def mat_add_def)
  then show ?thesis
    by (simp add: calc_gradient_def units_setup units_assemble units_problem_parent chain_ready_mode)
qed

text \<open>
  C6. When the connection to an input of a component crosses a unit boundary (its source has
  a unit, and \<open>convert_units(1.0, source_unit, target_unit)\<close> is \<open>k\<close>), the entry that the
  assembler writes in the row of the output, in the column of the upstream unknown, is
  \<open>-(local derivative) \<cdot> (derivative of the expression) \<cdot> k\<close>. The same connection
  without unit metadata gives the entry without the factor, so with \<open>k = 2\<close> the entry is
  twice that one; and in the chain example the total derivative through the connection is
  \<open>3 \<cdot> k \<cdot> 2\<close>, twice the unconverted one for \<open>k = 2\<close>.
\<close>

theorem unit_conversion_scales_entry:
  assumes "node_name @ ''.'' @ input_name \<notin> set (param_names self)"
    and "solver_conns = None \<or> node_name @ ''.'' @ input_name \<notin> dom (the solver_conns)"
    and "connections_to ascope (node_name @ ''.'' @ input_name) = (expr_txt, target) # others"
    and "key = (if take 4 expr_txt = ''@bin'' then remove_all ''@bin.'' expr_txt else expr_txt)"
    and "get_expr ascope key = Some expr"
    and "refs expr = source # more_refs"
    and "evaluate_gradient expr source source = Some ed"
    and "map snd (filter (\<lambda>x. fst x = source) (get_metadata_units expr)) = Some u # us"
    and "u \<noteq> []"
    and "get_expr ascope target = Some dest_expr"
    and "map snd (filter (\<lambda>x. fst x = target) (get_metadata_units dest_expr)) = tu # tus"
    and "convert_units E 1 u tu = Inr k"
    and "list_index (var_list self) (head @ source) = Inr i_var"
    and "local_derivs output_name = Some row"
    and "row input_name = Some ld"
  shows "comp_input_entry E ascope head solver_conns node_name local_derivs output_name input_name L self =
           Inr (LHS_entry i_var (- ld * ed * k), L\<lparr>loc_expr_txt := Some key, loc_target := Some target\<rparr>)
     \<and> comp_input_entry E (ascope\<lparr>get_expr := (get_expr ascope)(key \<mapsto> expr\<lparr>get_metadata_units := []\<rparr>)\<rparr>)
           head solver_conns node_name local_derivs output_name input_name L self =
           Inr (LHS_entry i_var (- ld * ed), L\<lparr>loc_expr_txt := Some key, loc_target := Some target\<rparr>)
     \<and> (k = 2 \<longrightarrow> - ld * ed * k = 2 * (- ld * ed))
     \<and> calc_gradient (factor_env k) units_problem False (chain_self direct) =
           Inr ((chain_ready direct)\<lparr>LHS := [[1, 0], [- (3 * k), 1]], RHS := [[2], [0]],
                                      gradient := [[3 * k * 2]]\<rparr>)"
proof -
  have rule_c: "\<not> (solver_conns \<noteq> None \<and> node_name @ ''.'' @ input_name \<in> dom (the solver_conns))"
    using assms(2) by blast
  have 1: "comp_input_entry E ascope head solver_conns node_name local_derivs output_name input_name L self =
           Inr (LHS_entry i_var (- ld * ed * k), L\<lparr>loc_expr_txt := Some key, loc_target := Some target\<rparr>)"
    unfolding comp_input_entry_def Let_def
    using assms
    by (auto simp: comp_upstream_entry_def first_def attr_of_def pop_def unit_converted_def getitem_def Let_def)
  have 2: "comp_input_entry E (ascope\<lparr>get_expr := (get_expr ascope)(key \<mapsto> expr\<lparr>get_metadata_units := []\<rparr>)\<rparr>)
           head solver_conns node_name local_derivs output_name input_name L self =
           Inr (LHS_entry i_var (- ld * ed), L\<lparr>loc_expr_txt := Some key, loc_target := Some target\<rparr>)"
    unfolding comp_input_entry_def Let_def
    using assms
    by (auto simp: comp_upstream_entry_def first_def attr_of_def pop_def unit_converted_def getitem_def Let_def)
  from 1 2 units_gradient [of k] show ?thesis
    by simp
qed

theorem unit_conversion_scales_entry_witness:
  "comp_input_entry (factor_env 2) units_scope [] None ''c2'' [''b'' \<mapsto> [''x'' \<mapsto> 3]] ''b'' ''x'' unbound
       (chain_ready direct) =
     Inr (LHS_entry 0 (- 3 * 1 * 2), unbound\<lparr>loc_expr_txt := Some ''c1.a'', loc_target := Some ''c2.x''\<rparr>)
   \<and> comp_input_entry (factor_env 2)
       (units_scope\<lparr>get_expr := (get_expr units_scope)(''c1.a'' \<mapsto>
          \<lparr>refs = [''c1.a''], evaluate_gradient = (\<lambda>w. [''c1.a'' \<mapsto> 1]), get_metadata_units = []\<rparr>)\<rparr>)
       [] None ''c2'' [''b'' \<mapsto> [''x'' \<mapsto> 3]] ''b'' ''x'' unbound (chain_ready direct) =
     Inr (LHS_entry 0 (- 3 * 1), unbound\<lparr>loc_expr_txt := Some ''c1.a'', loc_target := Some ''c2.x''\<rparr>)
   \<and> calc_gradient (factor_env 2) units_problem False (chain_self direct) =
       Inr ((chain_ready direct)\<lparr>LHS := [[1, 0], [- (3 * 2), 1]], RHS := [[2], [0]], gradient := [[3 * 2 * 2]]\<rparr>)"
proof -
  let ?e = "\<lparr>refs = [''c1.a''], evaluate_gradient = (\<lambda>w. [''c1.a'' \<mapsto> (1::real)]),
             get_metadata_units = [(''c1.a'', Some ''m'')]\<rparr>"
  let ?d = "\<lparr>refs = [''c2.x''], evaluate_gradient = (\<lambda>w. [''c2.x'' \<mapsto> (1::real)]),
             get_metadata_units = [(''c2.x'', Some ''cm'')]\<rparr>"
  have "?e\<lparr>get_metadata_units := []\<rparr> =
      \<lparr>refs = [''c1.a''], evaluate_gradient = (\<lambda>w. [''c1.a'' \<mapsto> (1::real)]), get_metadata_units = []\<rparr>"
    by simp
  with unit_conversion_scales_entry [where E = "factor_env 2" and ascope = "units_scope" and head = "[]"
      and solver_conns = "None" and node_name = "''c2''" and input_name = "''x''" and output_name = "''b''"
      and local_derivs = "[''b'' \<mapsto> [''x'' \<mapsto> 3]]" and self = "chain_ready direct" and L = "unbound"
      and expr_txt = "''c1.a''" and target = "''c2.x''" and others = "[]" and key = "''c1.a''"
      and expr = "?e" and source = "''c1.a''" and more_refs = "[]" and ed = "1" and u = "''m''" and us = "[]"
      and dest_expr = "?d" and tu = "Some ''cm''" and tus = "[]" and k = "2" and i_var = "0"
      and row = "[''x'' \<mapsto> 3]" and ld = "3"]
  show ?thesis
    by (simp add: units_scope_def factor_env_def chain_ready_def list_index_def)
qed

subsection \<open>The precedence of the rules for an input\<close>

lemma comp_upstream_entry_Inr:
  "comp_upstream_entry E ascope head local_derivs output_name input_name input_full L self = Inr (e, L') \<Longrightarrow>
     \<exists>row v expr_txt target others source i_var d.
        local_derivs output_name = Some row \<and> row input_name = Some v
        \<and> connections_to ascope input_full = (expr_txt, target) # others
        \<and> list_index (var_list self) (head @ source) = Inr i_var \<and> e = LHS_entry i_var (- v * d)"
  apply (clarsimp simp: comp_upstream_entry_def ebind_eq_Inr first_def getitem_def Let_def
      split: list.splits option.splits)
  apply blast
  done

lemma comp_input_entry_cases:
  "classify self solver_conns (node_name @ ''.'' @ input_name) = Parameter \<Longrightarrow>
     comp_input_entry E ascope head solver_conns node_name local_derivs output_name input_name L self =
       ebind (list_index (param_names self) (node_name @ ''.'' @ input_name)) (\<lambda>i_param.
       ebind (getitem local_derivs output_name) (\<lambda>row.
       ebind (getitem row input_name) (\<lambda>v.
       Inr (RHS_entry i_param v, L))))"
  "classify self solver_conns (node_name @ ''.'' @ input_name) = Solver_pair \<Longrightarrow>
     \<exists>d source. solver_conns = Some d \<and> d (node_name @ ''.'' @ input_name) = Some source \<and>
     comp_input_entry E ascope head solver_conns node_name local_derivs output_name input_name L self =
       ebind (list_index (var_list self) source) (\<lambda>i_dep.
       ebind (getitem local_derivs output_name) (\<lambda>row.
       ebind (getitem row input_name) (\<lambda>v.
       Inr (LHS_entry i_dep (- v), L))))"
  "classify self solver_conns (node_name @ ''.'' @ input_name) = Upstream \<Longrightarrow>
     comp_input_entry E ascope head solver_conns node_name local_derivs output_name input_name L self =
       comp_upstream_entry E ascope head local_derivs output_name input_name
         (node_name @ ''.'' @ input_name) L self"
  by (auto simp: classify_def comp_input_entry_def Let_def getitem_def dom_def
      split: if_splits option.splits)

text \<open>
  C10 as the code has it. Each pair of an output and an input of a terminal component is
  handled by exactly one rule, in a fixed precedence: when the input's full name is a
  parameter, its local derivative goes to \<open>RHS\<close> only; otherwise, when the full name is a key
  of the dictionary of the enclosing solver (so the input is the solver's \<open>indep\<close>), only the
  negated local derivative goes to \<open>LHS\<close>, in the column of the variable that the
  dictionary pairs with it (the \<open>dep\<close> of the constraint); only otherwise is the upstream
  connection resolved. Under the first two rules the result does not depend on the
  connection resolver, the expressions, the unit converter or the prefix: the connection
  of the input is never resolved.
\<close>

theorem input_rule_precedence:
  "(classify self solver_conns (node_name @ ''.'' @ input_name) \<noteq> Upstream \<longrightarrow>
      comp_input_entry E' ascope' head' solver_conns node_name local_derivs output_name input_name L self =
      comp_input_entry E ascope head solver_conns node_name local_derivs output_name input_name L self)
   \<and> (classify self solver_conns (node_name @ ''.'' @ input_name) = Upstream \<longrightarrow>
      comp_input_entry E ascope head solver_conns node_name local_derivs output_name input_name L self =
      comp_upstream_entry E ascope head local_derivs output_name input_name (node_name @ ''.'' @ input_name) L self)
   \<and> (comp_input_entry E ascope head solver_conns node_name local_derivs output_name input_name L self = Inr (e, L') \<longrightarrow>
      (\<exists>row v. local_derivs output_name = Some row \<and> row input_name = Some v \<and>
         (case classify self solver_conns (node_name @ ''.'' @ input_name) of
            Parameter \<Rightarrow>
              (\<exists>i_param. list_index (param_names self) (node_name @ ''.'' @ input_name) = Inr i_param
                 \<and> e = RHS_entry i_param v \<and> L' = L)
          | Solver_pair \<Rightarrow>
              (\<exists>d source i_dep. solver_conns = Some d \<and> d (node_name @ ''.'' @ input_name) = Some source
                 \<and> list_index (var_list self) source = Inr i_dep \<and> e = LHS_entry i_dep (- v) \<and> L' = L)
          | Upstream \<Rightarrow>
              (\<exists>expr_txt target others source i_var d.
                 connections_to ascope (node_name @ ''.'' @ input_name) = (expr_txt, target) # others
                 \<and> list_index (var_list self) (head @ source) = Inr i_var \<and> e = LHS_entry i_var (- v * d)))))"
proof (intro conjI impI)
  assume "classify self solver_conns (node_name @ ''.'' @ input_name) \<noteq> Upstream"
  then consider "classify self solver_conns (node_name @ ''.'' @ input_name) = Parameter"
    | "classify self solver_conns (node_name @ ''.'' @ input_name) = Solver_pair"
    by (cases "classify self solver_conns (node_name @ ''.'' @ input_name)") auto
  then show "comp_input_entry E' ascope' head' solver_conns node_name local_derivs output_name input_name L self =
      comp_input_entry E ascope head solver_conns node_name local_derivs output_name input_name L self"
  proof cases
    case 1
    then show ?thesis by (simp add: comp_input_entry_cases(1))
  next
    case 2
    from comp_input_entry_cases(2) [OF 2, of E ascope head local_derivs output_name L]
      comp_input_entry_cases(2) [OF 2, of E' ascope' head' local_derivs output_name L]
    show ?thesis by auto
  qed
next
  assume "classify self solver_conns (node_name @ ''.'' @ input_name) = Upstream"
  then show "comp_input_entry E ascope head solver_conns node_name local_derivs output_name input_name L self =
      comp_upstream_entry E ascope head local_derivs output_name input_name (node_name @ ''.'' @ input_name) L self"
    by (rule comp_input_entry_cases(3))
next
  assume ok: "comp_input_entry E ascope head solver_conns node_name local_derivs output_name input_name L self = Inr (e, L')"
  let ?full = "node_name @ ''.'' @ input_name"
  show "\<exists>row v. local_derivs output_name = Some row \<and> row input_name = Some v \<and>
         (case classify self solver_conns (node_name @ ''.'' @ input_name) of
            Parameter \<Rightarrow>
              (\<exists>i_param. list_index (param_names self) (node_name @ ''.'' @ input_name) = Inr i_param
                 \<and> e = RHS_entry i_param v \<and> L' = L)
          | Solver_pair \<Rightarrow>
              (\<exists>d source i_dep. solver_conns = Some d \<and> d (node_name @ ''.'' @ input_name) = Some source
                 \<and> list_index (var_list self) source = Inr i_dep \<and> e = LHS_entry i_dep (- v) \<and> L' = L)
          | Upstream \<Rightarrow>
              (\<exists>expr_txt target others source i_var d.
                 connections_to ascope (node_name @ ''.'' @ input_name) = (expr_txt, target) # others
                 \<and> list_index (var_list self) (head @ source) = Inr i_var \<and> e = LHS_entry i_var (- v * d)))"
  proof (cases "classify self solver_conns ?full")
    case Parameter
    from ok Parameter show ?thesis
      unfolding comp_input_entry_cases(1) [OF Parameter]
      by (auto simp: ebind_eq_Inr getitem_def split: option.splits)
  next
    case Solver_pair
    from comp_input_entry_cases(2) [OF Solver_pair, of E ascope head local_derivs output_name L]
    obtain d source where ds: "solver_conns = Some d" "d ?full = Some source"
      and eq: "comp_input_entry E ascope head solver_conns node_name local_derivs output_name input_name L self =
        ebind (list_index (var_list self) source) (\<lambda>i_dep.
        ebind (getitem local_derivs output_name) (\<lambda>row.
        ebind (getitem row input_name) (\<lambda>v.
        Inr (LHS_entry i_dep (- v), L))))"
      by blast
    from ok [unfolded eq] ds Solver_pair show ?thesis
      by (auto simp: ebind_eq_Inr getitem_def split: option.splits)
  next
    case Upstream
    from ok have "comp_upstream_entry E ascope head local_derivs output_name input_name ?full L self = Inr (e, L')"
      by (simp add: comp_input_entry_cases(3) [OF Upstream])
    from comp_upstream_entry_Inr [OF this] Upstream show ?thesis
      by simp
  qed
qed


theorem input_rule_precedence_witness:
  "classify (chain_ready direct) (Some [''c1.param'' \<mapsto> ''c2.b'']) ''c1.param'' = Parameter
   \<and> comp_input_entry exact_env chain_scope [] (Some [''c1.param'' \<mapsto> ''c2.b'']) ''c1''
        [''a'' \<mapsto> [''param'' \<mapsto> 2]] ''a'' ''param'' unbound (chain_ready direct) = Inr (RHS_entry 0 2, unbound)
   \<and> classify (chain_ready direct) (Some [''c2.x'' \<mapsto> ''c2.b'']) ''c2.x'' = Solver_pair
   \<and> comp_input_entry exact_env chain_scope [] (Some [''c2.x'' \<mapsto> ''c2.b'']) ''c2''
        [''b'' \<mapsto> [''x'' \<mapsto> 3]] ''b'' ''x'' unbound (chain_ready direct) = Inr (LHS_entry 1 (- 3), unbound)
   \<and> comp_input_entry exact_env \<lparr>connections_to = (\<lambda>n. []), get_expr = Map.empty\<rparr> ''top''
        (Some [''c2.x'' \<mapsto> ''c2.b'']) ''c2'' [''b'' \<mapsto> [''x'' \<mapsto> 3]] ''b'' ''x'' unbound (chain_ready direct) =
      comp_input_entry exact_env chain_scope [] (Some [''c2.x'' \<mapsto> ''c2.b'']) ''c2''
        [''b'' \<mapsto> [''x'' \<mapsto> 3]] ''b'' ''x'' unbound (chain_ready direct)
   \<and> classify (chain_ready direct) None ''c2.x'' = Upstream
   \<and> comp_input_entry exact_env chain_scope [] None ''c2''
        [''b'' \<mapsto> [''x'' \<mapsto> 3]] ''b'' ''x'' unbound (chain_ready direct) =
      comp_upstream_entry exact_env chain_scope [] [''b'' \<mapsto> [''x'' \<mapsto> 3]] ''b'' ''x'' ''c2.x'' unbound
        (chain_ready direct)
   \<and> comp_input_entry exact_env chain_scope [] None ''c2''
        [''b'' \<mapsto> [''x'' \<mapsto> 3]] ''b'' ''x'' unbound (chain_ready direct) =
      Inr (LHS_entry 0 (- 3 * 1), unbound\<lparr>loc_expr_txt := Some ''c1.a'', loc_target := Some ''c2.x''\<rparr>)"
proof -
  let ?S = "chain_ready direct"
  have a: "classify ?S (Some [''c1.param'' \<mapsto> ''c2.b'']) (''c1'' @ ''.'' @ ''param'') = Parameter"
    and b: "classify ?S (Some [''c2.x'' \<mapsto> ''c2.b'']) (''c2'' @ ''.'' @ ''x'') = Solver_pair"
    and c: "classify ?S None (''c2'' @ ''.'' @ ''x'') = Upstream"
    by (simp_all add: classify_def chain_ready_def)
  have ra: "comp_input_entry exact_env chain_scope [] (Some [''c1.param'' \<mapsto> ''c2.b'']) ''c1''
        [''a'' \<mapsto> [''param'' \<mapsto> 2]] ''a'' ''param'' unbound ?S = Inr (RHS_entry 0 2, unbound)"
    and rb: "comp_input_entry exact_env chain_scope [] (Some [''c2.x'' \<mapsto> ''c2.b'']) ''c2''
        [''b'' \<mapsto> [''x'' \<mapsto> 3]] ''b'' ''x'' unbound ?S = Inr (LHS_entry 1 (- 3), unbound)"
    and rc: "comp_input_entry exact_env chain_scope [] None ''c2''
        [''b'' \<mapsto> [''x'' \<mapsto> 3]] ''b'' ''x'' unbound ?S =
      Inr (LHS_entry 0 (- 3 * 1), unbound\<lparr>loc_expr_txt := Some ''c1.a'', loc_target := Some ''c2.x''\<rparr>)"
    by (simp_all add: chain_scope_def chain_ready_def eval_simps)
  from input_rule_precedence [of ?S "Some [''c2.x'' \<mapsto> ''c2.b'']" "''c2''" "''x''"
      exact_env "\<lparr>connections_to = (\<lambda>n. []), get_expr = Map.empty\<rparr>" "''top''"
      "[''b'' \<mapsto> [''x'' \<mapsto> 3]]" "''b''" unbound exact_env chain_scope "[]"] b
  have ind: "comp_input_entry exact_env \<lparr>connections_to = (\<lambda>n. []), get_expr = Map.empty\<rparr> ''top''
        (Some [''c2.x'' \<mapsto> ''c2.b'']) ''c2'' [''b'' \<mapsto> [''x'' \<mapsto> 3]] ''b'' ''x'' unbound ?S =
      comp_input_entry exact_env chain_scope [] (Some [''c2.x'' \<mapsto> ''c2.b'']) ''c2''
        [''b'' \<mapsto> [''x'' \<mapsto> 3]] ''b'' ''x'' unbound ?S"
    by simp
  from input_rule_precedence [of ?S None "''c2''" "''x''" exact_env chain_scope "[]"
      "[''b'' \<mapsto> [''x'' \<mapsto> 3]]" "''b''" unbound exact_env chain_scope "[]"] c
  have up: "comp_input_entry exact_env chain_scope [] None ''c2''
        [''b'' \<mapsto> [''x'' \<mapsto> 3]] ''b'' ''x'' unbound ?S =
      comp_upstream_entry exact_env chain_scope [] [''b'' \<mapsto> [''x'' \<mapsto> 3]] ''b'' ''x'' ''c2.x'' unbound ?S"
    by simp
  from a b c ra rb rc ind up show ?thesis
    by simp
qed

text \<open>
  C10 as the claim states it fails: the claim gives the solver rule to an input that is a
  \<open>dependent\<close> in the solver's dictionary. In the example the solver's dictionary is
  \<open>{'c.x': 'e.z'}\<close>, so \<open>e.z\<close> is the dependent of the solver's constraint; \<open>e.z\<close> is no
  parameter and is connected to \<open>f.v\<close>. The code tests the keys of the dictionary, of which
  \<open>e.z\<close> is none, and resolves the connection: the row of \<open>e.w\<close> gets \<open>-3 \<cdot> 1\<close> in the
  column of \<open>f.v\<close>, and without the connection the assembly raises \<open>IndexError\<close>.
\<close>

theorem solver_dependent_resolved_upstream:
  "solver_dict (get_parameters dep_solver) (get_eq_constraints dep_solver) Map.empty = Inr [''c.x'' \<mapsto> ''e.z'']
   \<and> ''e.z'' \<notin> set (param_names dep_ready)
   \<and> connections_to dep_scope ''e.z'' = [(''f.v'', ''e.z'')]
   \<and> setup_analytic dep_problem dep_self = Inr dep_ready
   \<and> assemble_direct exact_env dep_scope dep_driver 0 [] None dep_ready =
        Inr (2, dep_ready\<lparr>LHS := [[1, 0], [- 3, 1]], RHS := [[2], [0]]\<rparr>)
   \<and> assemble_direct exact_env (dep_scope\<lparr>connections_to := (\<lambda>n. [])\<rparr>) dep_driver 0 [] None dep_ready =
        Inl IndexError"
  by (simp add: dep_solver_def dep_driver_def dep_scope_def dep_problem_def dep_self_def dep_ready_def
      setup_analytic_def eval_simps)

subsection \<open>A boundary input of a sub-model that is a parameter\<close>

text \<open>
  C4. The claim: for a boundary input of a sub-model that is connected to a parameter, the
  assembler opens a row and writes the connection's local derivative into \<open>RHS\<close> at the
  parameter's column, and the assembly succeeds. The code of that branch (lines 305-310)
  reads \<open>local_derivs[output_name][input_name]\<close>, two locals that the branch of an assembly
  never assigns before: on the example, where the assembly is the first node of the
  workflow, \<open>setup\<close> succeeds and the assembly pass, and with it \<open>calc_gradient\<close>, raises
  \<open>NameError\<close> (\<open>UnboundLocalError\<close>).
\<close>

theorem assembly_input_parameter_unbound:
  "setup_analytic sub_problem sub_self = Inr sub_ready
   \<and> assemble_direct E (parent_scope sub_problem) (parent sub_problem) 0 [] None sub_ready = Inl NameError
   \<and> calc_gradient E sub_problem False sub_self = Inl NameError"
proof -
  have 1: "setup_analytic sub_problem sub_self = Inr sub_ready"
    by (simp add: sub_driver_def sub_problem_def sub_self_def sub_ready_def setup_analytic_def eval_simps)
  have 2: "assemble_direct E (parent_scope sub_problem) (parent sub_problem) 0 [] None sub_ready = Inl NameError"
    by (simp add: sub_driver_def sub_problem_def sub_ready_def eval_simps)
  have "mode sub_ready = direct"
    by (simp add: sub_ready_def)
  with 1 2 show ?thesis
    by (simp add: calc_gradient_def)
qed

subsection \<open>The passes of \<open>calc_gradient\<close>\<close>

lemma setup_mode: "setup_analytic P self = Inr ready \<Longrightarrow> mode ready = mode self"
  using setup_result [of P self ready] by (simp add: same_names_def)

text \<open>
  C3 as the code has it. In direct mode every call of \<open>calc_gradient\<close> runs \<open>setup\<close> (unless
  the model is cached), then one assembly pass from equation number \<open>0\<close>, then one linear
  solve on what the pass left. In adjoint mode there is no assembly pass: the call runs
  \<open>setup\<close> (unless cached) and then the linear solve, on \<open>LHS\<close> and \<open>RHS\<close> as they stand.
\<close>

theorem calc_gradient_passes:
  "(mode self = direct \<longrightarrow>
      calc_gradient E P cached self =
        ebind (if cached then Inr self else setup_analytic P self) (\<lambda>ready.
        ebind (assemble_direct E (parent_scope P) (parent P) 0 [] None ready) (\<lambda>(i_eq, assembled).
        solve E assembled)))
   \<and> (mode self = adjoint \<longrightarrow>
      calc_gradient E P cached self =
        ebind (if cached then Inr self else setup_analytic P self) (\<lambda>ready. solve E ready))"
proof (intro conjI impI)
  assume d: "mode self = direct"
  show "calc_gradient E P cached self =
        ebind (if cached then Inr self else setup_analytic P self) (\<lambda>ready.
        ebind (assemble_direct E (parent_scope P) (parent P) 0 [] None ready) (\<lambda>(i_eq, assembled).
        solve E assembled))"
  proof (cases "if cached then Inr self else setup_analytic P self")
    case (Inl e)
    then show ?thesis by (simp add: calc_gradient_def split: if_splits)
  next
    case (Inr ready)
    then have "mode ready = direct"
      using d setup_mode [of P self ready] by (auto split: if_splits)
    with Inr show ?thesis
      by (cases "assemble_direct E (parent_scope P) (parent P) 0 [] None ready")
        (auto simp: calc_gradient_def split: if_splits)
  qed
next
  assume a: "mode self = adjoint"
  show "calc_gradient E P cached self =
        ebind (if cached then Inr self else setup_analytic P self) (\<lambda>ready. solve E ready)"
  proof (cases "if cached then Inr self else setup_analytic P self")
    case (Inl e)
    then show ?thesis by (simp add: calc_gradient_def split: if_splits)
  next
    case (Inr ready)
    then have "mode ready = adjoint"
      using a setup_mode [of P self ready] by (auto split: if_splits)
    with Inr show ?thesis
      by (auto simp: calc_gradient_def split: if_splits)
  qed
qed

theorem calc_gradient_passes_witness:
  "mode (chain_self direct) = direct
   \<and> calc_gradient exact_env chain_problem False (chain_self direct) =
        ebind (setup_analytic chain_problem (chain_self direct)) (\<lambda>ready.
        ebind (assemble_direct exact_env (parent_scope chain_problem) (parent chain_problem) 0 [] None ready)
          (\<lambda>(i_eq, assembled). solve exact_env assembled))
   \<and> mode (chain_self adjoint) = adjoint
   \<and> calc_gradient exact_env chain_problem False (chain_self adjoint) =
        ebind (setup_analytic chain_problem (chain_self adjoint)) (\<lambda>ready. solve exact_env ready)"
proof -
  have d: "mode (chain_self direct) = direct" and a: "mode (chain_self adjoint) = adjoint"
    by (simp_all add: chain_self_def)
  from calc_gradient_passes [of "chain_self direct" exact_env chain_problem False] d
    calc_gradient_passes [of "chain_self adjoint" exact_env chain_problem False] a
  show ?thesis
    by simp
qed


text \<open>
  C3 as the claim states it fails in adjoint mode. On the chain, \<open>setup\<close> in adjoint mode
  leaves \<open>LHS\<close> and \<open>RHS\<close> zero; an assembly pass on that state would raise \<open>ValueError\<close>
  (the unknowns are inputs, and \<open>c1.a\<close> is none of them); \<open>calc_gradient\<close> raises the
  \<open>LinAlgError\<close> of the solver on the zero matrix instead: the assembler did not run.
\<close>

lemma adjoint_setup: "setup_analytic chain_problem (chain_self adjoint) = Inr adjoint_ready"
  by (simp add: setup_analytic_def chain_problem_def chain_self_def adjoint_ready_def chain_driver_def
      eval_simps)

lemma adjoint_solve: "solve exact_env adjoint_ready = Inl LinAlgError"
  by (simp add: solve_def exact_env_def adjoint_ready_def exact_solve_def gj_step_def find_pivot_def upt_rec)

theorem adjoint_skips_assembly:
  "setup_analytic chain_problem (chain_self adjoint) = Inr adjoint_ready
   \<and> LHS adjoint_ready = [[0, 0], [0, 0]] \<and> RHS adjoint_ready = [[0], [0]]
   \<and> assemble_direct exact_env (parent_scope chain_problem) (parent chain_problem) 0 [] None adjoint_ready =
        Inl ValueError
   \<and> solve exact_env adjoint_ready = Inl LinAlgError
   \<and> calc_gradient exact_env chain_problem False (chain_self adjoint) = Inl LinAlgError"
proof -
  have "assemble_direct exact_env (parent_scope chain_problem) (parent chain_problem) 0 [] None adjoint_ready =
        Inl ValueError"
    by (simp add: chain_problem_def chain_scope_def chain_driver_def adjoint_ready_def eval_simps)
  moreover have "mode adjoint_ready = adjoint" "LHS adjoint_ready = [[0, 0], [0, 0]]" "RHS adjoint_ready = [[0], [0]]"
    by (simp_all add: adjoint_ready_def)
  ultimately show ?thesis
    using adjoint_setup adjoint_solve by (simp add: calc_gradient_def)
qed

subsection \<open>Nested drivers without solver capability\<close>

lemma is_error_simps [simp]: "is_error (Inl e)" "\<not> is_error (Inr x)"
  by (simp_all add: is_error_def)

lemma is_error_ebind: "is_error (ebind m f) \<longleftrightarrow> is_error m \<or> (\<exists>x. m = Inr x \<and> is_error (f x))"
  by (cases m) simp_all


lemma unsupported_fails:
  "list_ex unsupported (workflow dscope) \<Longrightarrow> is_error (assemble_direct E ascope dscope eq_num head sc self)"
  "list_ex unsupported nodes \<Longrightarrow> is_error (assemble_nodes E ascope ed head sc nodes i L self)"
  "unsupported node \<Longrightarrow> is_error (assemble_node E ascope ed head sc node i L self)"
proof (induction E ascope dscope eq_num head sc self and E ascope ed head sc nodes i L self
    and E ascope ed head sc node i L self rule: assemble_direct_assemble_nodes_assemble_node.induct)
  case (1 E ascope pathname solver run_once params eqs scope_edges nodes eq_num head solver_conns self)
  then show ?case by simp
next
  case (2 E ascope scope_edges head solver_conns i_eq L self)
  then show ?case by simp
next
  case (3 E ascope scope_edges head solver_conns node rest i_eq L self)
  show ?case
  proof (cases "assemble_node E ascope scope_edges head solver_conns node i_eq L self")
    case (Inl e)
    then show ?thesis by simp
  next
    case (Inr res)
    obtain i1 L1 s1 where res: "res = (i1, L1, s1)" by (cases res)
    from Inr 3(1) have "\<not> unsupported node" by auto
    with 3(3) have "list_ex unsupported rest" by simp
    from 3(2) [OF this, of i1 L1 s1] Inr res show ?thesis by simp
  qed
next
  case (4 E ascope scope_edges head solver_conns node i_eq L self)
  show ?case
  proof (cases node)
    case (Component n d)
    with 4(3) show ?thesis by simp
  next
    case (DriverNode n drv)
    show ?thesis
    proof (cases "is_solver drv")
      case False
      with DriverNode show ?thesis by simp
    next
      case True
      with 4(3) DriverNode have bad: "list_ex unsupported (workflow drv)"
        by (cases drv) simp
      show ?thesis
      proof (cases "solver_dict (get_parameters drv) (get_eq_constraints drv) Map.empty")
        case (Inl e)
        with DriverNode True show ?thesis by simp
      next
        case (Inr sd)
        from True have "\<not> \<not> is_solver drv" by simp
        from 4(1) [OF DriverNode this bad]
        have "is_error (assemble_direct E ascope drv i_eq head (Some sd) self)" .
        with DriverNode True Inr show ?thesis
          by (cases "assemble_direct E ascope drv i_eq head (Some sd) self") simp_all
      qed
    qed
  next
    case (AssemblyNode n path sub drv)
    with 4(3) have bad: "list_ex unsupported (workflow drv)"
      by (cases drv) simp
    show ?thesis
    proof (cases "is_run_once drv")
      case False
      with AssemblyNode show ?thesis by simp
    next
      case True
      then have nn: "\<not> \<not> is_run_once drv" by simp
      show ?thesis
      proof (cases "getitem (map_of scope_edges) n")
        case (Inl e)
        with AssemblyNode True show ?thesis by simp
      next
        case (Inr edge_dict)
        show ?thesis
        proof (cases "assy_inputs E ascope head n (fst edge_dict) i_eq L self")
          case (Inl e)
          with AssemblyNode True Inr show ?thesis by simp
        next
          case ins: (Inr res)
          obtain i1 L1 s1 where res: "res = (i1, L1, s1)" by (cases res)
          from 4(2) [OF AssemblyNode nn bad]
          have "is_error (assemble_direct E sub drv i1 path None s1)" .
          with AssemblyNode True Inr ins res show ?thesis
            by (cases "assemble_direct E sub drv i1 path None s1") simp_all
        qed
      qed
    qed
  qed
qed

lemma assemble_nodes_reaches:
  "\<not> is_solver drv \<Longrightarrow>
     assemble_nodes E ascope ed head sc (pre @ DriverNode n drv # rest) i L self =
       (case assemble_nodes E ascope ed head sc pre i L self of
          Inl e \<Rightarrow> Inl e
        | Inr _ \<Rightarrow> Inl only_solvers)"
proof (induction pre arbitrary: i L self)
  case Nil
  then show ?case by (simp add: only_solvers_def)
next
  case (Cons x pre)
  show ?case
  proof (cases "assemble_node E ascope ed head sc x i L self")
    case (Inl e)
    then show ?thesis by simp
  next
    case (Inr res)
    obtain i1 L1 s1 where "res = (i1, L1, s1)" by (cases res)
    with Inr Cons.IH [OF Cons.prems, of i1 L1 s1] show ?thesis by simp
  qed
qed

lemma edge_entries_reaches:
  assumes "get_node nodes name = Some (DriverNode n drv)" and "\<not> is_solver drv"
  shows "edge_entries nodes (pre @ (name, edges) # rest) index head vl =
       (case edge_entries nodes pre index head vl of
          Inl e \<Rightarrow> Inl e
        | Inr _ \<Rightarrow> Inl only_solvers)"
proof (induction pre arbitrary: vl)
  case Nil
  from assms show ?case by (simp add: only_solvers_def)
next
  case (Cons x pre)
  show ?case
  proof (cases "edge_entry nodes x index head vl")
    case (Inl e)
    then show ?thesis by simp
  next
    case (Inr vl1)
    with Cons.IH [of vl1] show ?thesis by simp
  qed
qed

lemma unsupported_no_gradient:
  assumes "mode self = direct" and "list_ex unsupported (workflow (parent P))"
  shows "is_error (calc_gradient E P cached self)"
proof (cases "if \<not> cached then setup_analytic P self else Inr self")
  case (Inl e)
  then show ?thesis by (simp add: calc_gradient_def)
next
  case (Inr ready)
  with assms(1) have m: "mode ready = direct"
    using setup_mode [of P self ready] by (auto split: if_splits)
  have "is_error (assemble_direct E (parent_scope P) (parent P) 0 [] None ready)"
    using assms(2) by (rule unsupported_fails(1))
  with Inr m show ?thesis
    by (cases "assemble_direct E (parent_scope P) (parent P) 0 [] None ready")
      (simp_all add: calc_gradient_def)
qed

text \<open>
  C8 as the code has it. When the workflow of the differentiated driver contains a nested
  driver that is no solver (at any depth), the assembly pass raises: it never returns a
  system, and \<open>calc_gradient\<close> in direct mode never returns a gradient. The error is the
  signal \<open>Only nested solvers are supported\<close> when the nodes before that driver in the
  workflow assemble without error; when one of them raises, its error is the one reported.
  The enumeration raises the signal when an entry of the edge dictionary resolves to such a
  driver and the entries before it enumerate without error.
\<close>

theorem unsupported_driver_fails:
  "(list_ex unsupported (workflow dscope) \<longrightarrow>
      is_error (assemble_direct E ascope dscope eq_num head solver_conns self))
   \<and> (mode self = direct \<and> list_ex unsupported (workflow (parent P)) \<longrightarrow>
      is_error (calc_gradient E P cached self))
   \<and> (\<not> is_solver drv \<longrightarrow>
      assemble_nodes E ascope scope_edges head solver_conns (pre @ DriverNode node_name drv # rest) i_eq L self =
        (case assemble_nodes E ascope scope_edges head solver_conns pre i_eq L self of
           Inl e \<Rightarrow> Inl e
         | Inr _ \<Rightarrow> Inl only_solvers))
   \<and> (get_node nodes name = Some (DriverNode node_name drv) \<and> \<not> is_solver drv \<longrightarrow>
      edge_entries nodes (entries @ (name, edges) # more_entries) index head vl =
        (case edge_entries nodes entries index head vl of
           Inl e \<Rightarrow> Inl e
         | Inr _ \<Rightarrow> Inl only_solvers))"
proof (intro conjI impI)
  assume "list_ex unsupported (workflow dscope)"
  then show "is_error (assemble_direct E ascope dscope eq_num head solver_conns self)"
    by (rule unsupported_fails(1))
next
  assume "mode self = direct \<and> list_ex unsupported (workflow (parent P))"
  then show "is_error (calc_gradient E P cached self)"
    by (simp add: unsupported_no_gradient)
next
  assume "\<not> is_solver drv"
  then show "assemble_nodes E ascope scope_edges head solver_conns (pre @ DriverNode node_name drv # rest) i_eq L self =
        (case assemble_nodes E ascope scope_edges head solver_conns pre i_eq L self of
           Inl e \<Rightarrow> Inl e
         | Inr _ \<Rightarrow> Inl only_solvers)"
    by (rule assemble_nodes_reaches)
next
  assume "get_node nodes name = Some (DriverNode node_name drv) \<and> \<not> is_solver drv"
  then show "edge_entries nodes (entries @ (name, edges) # more_entries) index head vl =
        (case edge_entries nodes entries index head vl of
           Inl e \<Rightarrow> Inl e
         | Inr _ \<Rightarrow> Inl only_solvers)"
    by (simp add: edge_entries_reaches)
qed

theorem unsupported_driver_fails_witness:
  "list_ex unsupported (workflow opt_driver)
   \<and> is_error (assemble_direct exact_env chain_scope opt_driver 0 [] None (chain_ready direct))
   \<and> mode (chain_ready direct) = direct
   \<and> is_error (calc_gradient exact_env opt_problem True (chain_ready direct))
   \<and> assemble_nodes exact_env chain_scope (edge_dicts opt_driver) [] None
        ([Component ''c1'' (Some [''a'' \<mapsto> [''param'' \<mapsto> 2]]),
          Component ''c2'' (Some [''b'' \<mapsto> [''x'' \<mapsto> 3]])]
         @ DriverNode ''opt'' (Driver ''opt'' False False [] [] [] []) # [])
        0 unbound (chain_ready direct) = Inl only_solvers
   \<and> edge_entries (workflow opt_driver)
        ([(''c1'', ([''param''], [''a''])), (''c2'', ([''x''], [''b'']))] @ (''opt'', ([], [])) # [])
        1 [] [] = Inl only_solvers"
proof -
  let ?comps = "[Component ''c1'' (Some [''a'' \<mapsto> [''param'' \<mapsto> 2]]),
          Component ''c2'' (Some [''b'' \<mapsto> [''x'' \<mapsto> (3::real)]])]"
  let ?opt = "Driver ''opt'' False False [] [] [] []"
  have bad: "list_ex unsupported (workflow opt_driver)"
    by (simp add: opt_driver_def opt_node_def)
  have m: "mode (chain_ready direct) = direct"
    by (simp add: chain_ready_def)
  have p: "workflow (parent opt_problem) = workflow opt_driver"
    by (simp add: opt_problem_def)
  have ns: "\<not> is_solver ?opt"
    by simp
  have pre: "assemble_nodes exact_env chain_scope (edge_dicts opt_driver) [] None ?comps 0 unbound
      (chain_ready direct) = Inr (2, (chain_ready direct)\<lparr>LHS := [[1, 0], [- 3, 1]], RHS := [[2], [0]]\<rparr>)"
    by (simp add: opt_driver_def chain_scope_def chain_ready_def eval_simps)
  have g: "get_node (workflow opt_driver) ''opt'' = Some (DriverNode ''opt'' ?opt)"
    by (simp add: opt_driver_def opt_node_def get_node_def)
  have epre: "edge_entries (workflow opt_driver) [(''c1'', ([''param''], [''a''])), (''c2'', ([''x''], [''b'']))]
      1 [] [] = Inr [''c1.a'', ''c2.b'']"
    by (simp add: opt_driver_def opt_node_def get_node_def edge_side_def)
  from unsupported_driver_fails [of opt_driver exact_env chain_scope 0 "[]" None "chain_ready direct"
      opt_problem True ?opt "edge_dicts opt_driver" ?comps "''opt''" "[]" 0 unbound
      "workflow opt_driver" "''opt''" "[(''c1'', ([''param''], [''a''])), (''c2'', ([''x''], [''b'']))]"
      "([], [])" "[]" 1 "[]"]
    bad m p ns pre g epre
  show ?thesis
    by simp
qed

text \<open>
  C8 as the claim states it fails: the workflow below contains a nested driver without
  solver capability, and the assembly pass fails with another signal, that of the sub-model
  before it whose driver is not \<open>Run_Once\<close>.
\<close>

theorem earlier_failure_reported_first:
  "list_ex unsupported (workflow clash_driver)
   \<and> assemble_direct exact_env chain_scope clash_driver 0 [] None (chain_ready direct) =
        Inl (NotImplementedError ''Nested drivers'')
   \<and> NotImplementedError ''Nested drivers'' \<noteq> only_solvers"
  by (simp add: clash_driver_def opt_node_def only_solvers_def)

subsection \<open>The diagonal of \<open>LHS\<close>\<close>

lemma same_lists_refl [simp]: "same_lists a a"
  by (simp add: same_lists_def)

lemma same_lists_trans: "same_lists a b \<Longrightarrow> same_lists b c \<Longrightarrow> same_lists a c"
  by (simp add: same_lists_def)

lemma mat_set_Inr:
  "mat_set M i j v = Inr M' \<Longrightarrow> i < length M \<and> j < length (M ! i) \<and> M' = M[i := (M ! i)[j := v]]"
  by (auto simp: mat_set_def split: if_splits)

lemma open_row_Inr:
  assumes "open_row i self = Inr s"
  shows "LHS s ! i ! i = 1" and "\<forall>r. r \<noteq> i \<longrightarrow> LHS s ! r = LHS self ! r" and "same_lists s self"
proof -
  from assms obtain M where M: "mat_set (LHS self) i i 1 = Inr M" and s: "s = self\<lparr>LHS := M\<rparr>"
    by (auto simp: open_row_def ebind_eq_Inr)
  from mat_set_Inr [OF M] s show "LHS s ! i ! i = 1" "\<forall>r. r \<noteq> i \<longrightarrow> LHS s ! r = LHS self ! r"
    "same_lists s self"
    by (auto simp: same_lists_def)
qed

lemma write_entry_Inr:
  assumes "write_entry i e self = Inr s"
  shows "\<forall>r. r \<noteq> i \<longrightarrow> LHS s ! r = LHS self ! r" and "same_lists s self"
    and "entry_column (Inr (e, L)) \<noteq> Some c \<Longrightarrow> LHS s ! i ! c = LHS self ! i ! c"
proof -
  show "\<forall>r. r \<noteq> i \<longrightarrow> LHS s ! r = LHS self ! r"
    using assms by (cases e) (auto simp: ebind_eq_Inr dest!: mat_set_Inr)
  show "same_lists s self"
    using assms by (cases e) (auto simp: ebind_eq_Inr same_lists_def)
  show "LHS s ! i ! c = LHS self ! i ! c" if "entry_column (Inr (e, L)) \<noteq> Some c"
    using assms that by (cases e) (auto simp: ebind_eq_Inr entry_column_def dest!: mat_set_Inr)
qed

lemma comp_input_entry_lists:
  "same_lists a b \<Longrightarrow>
     comp_input_entry E ascope head sc node ld out inp L a = comp_input_entry E ascope head sc node ld out inp L b"
  by (simp add: comp_input_entry_def comp_upstream_entry_def same_lists_def Let_def)

lemma comp_upstream_column:
  "entry_column (comp_upstream_entry E ascope head ld out inp full L self) =
   entry_column (comp_upstream_entry E ascope head ld out inp full L' self)"
proof -
  have "entry_column (ebind m (\<lambda>x. ebind (f x) (\<lambda>y. Inr (g y, L0)))) =
        entry_column (ebind m (\<lambda>x. ebind (f x) (\<lambda>y. Inr (g y, L1))))"
    for m :: "error + 'a" and f :: "'a \<Rightarrow> error + 'b" and g L0 L1
    by (cases m) (auto simp: entry_column_def ebind_def split: sum.splits entry.splits)
  show ?thesis
    unfolding comp_upstream_entry_def Let_def
    by (auto simp: entry_column_def ebind_def split: sum.splits entry.splits prod.splits)
qed

lemma comp_input_column:
  "entry_column (comp_input_entry E ascope head sc node ld out inp L self) =
   entry_column (comp_input_entry E ascope head sc node ld out inp L' self)"
  unfolding comp_input_entry_def Let_def
  using comp_upstream_column [of E ascope head ld out inp "node @ ''.'' @ inp" L self L']
  by (auto simp: entry_column_def ebind_def split: sum.splits entry.splits)

lemma comp_inputs_Inr:
  assumes "comp_inputs E ascope head sc node ld out inputs i L self = Inr (L', s)"
  shows "(\<forall>r. r \<noteq> i \<longrightarrow> LHS s ! r = LHS self ! r) \<and> same_lists s self
     \<and> ((\<forall>inp \<in> set inputs.
            entry_column (comp_input_entry E ascope head sc node ld out inp unbound self) \<noteq> Some c)
          \<longrightarrow> LHS s ! i ! c = LHS self ! i ! c)"
  using assms
proof (induction inputs arbitrary: L self)
  case Nil
  then show ?case by simp
next
  case (Cons inp inputs)
  from Cons.prems obtain e L1 s1 where
      e: "comp_input_entry E ascope head sc node ld out inp L self = Inr (e, L1)"
    and w: "write_entry i e self = Inr s1"
    and rest: "comp_inputs E ascope head sc node ld out inputs i L1 s1 = Inr (L', s)"
    by (auto simp: ebind_eq_Inr)
  note W = write_entry_Inr [OF w]
  note IH = Cons.IH [OF rest]
  have cols: "\<forall>x \<in> set inputs.
      entry_column (comp_input_entry E ascope head sc node ld out x unbound s1) =
      entry_column (comp_input_entry E ascope head sc node ld out x unbound self)"
    using comp_input_entry_lists [OF W(2)] by simp
  have "LHS s ! i ! c = LHS self ! i ! c"
    if no: "\<forall>x \<in> set (inp # inputs).
      entry_column (comp_input_entry E ascope head sc node ld out x unbound self) \<noteq> Some c"
  proof -
    from no have "entry_column (comp_input_entry E ascope head sc node ld out inp L self) \<noteq> Some c"
      using comp_input_column [of E ascope head sc node ld out inp L self unbound] by simp
    with e have "entry_column (Inr (e, L1)) \<noteq> Some c" by simp
    from W(3) [OF this] have 1: "LHS s1 ! i ! c = LHS self ! i ! c" .
    from no cols have "\<forall>x \<in> set inputs.
      entry_column (comp_input_entry E ascope head sc node ld out x unbound s1) \<noteq> Some c"
      by simp
    with IH 1 show ?thesis by simp
  qed
  moreover have "\<forall>r. r \<noteq> i \<longrightarrow> LHS s ! r = LHS self ! r"
    using W(1) IH by simp
  moreover have "same_lists s self"
    using W(2) IH same_lists_trans by blast
  ultimately show ?case by blast
qed

lemma comp_outputs_Inr:
  assumes "comp_outputs E ascope head sc node ld inputs outputs i L self = Inr (i', L', s)"
  shows "i' = i + length outputs \<and> (\<forall>r < i. LHS s ! r = LHS self ! r) \<and> same_lists s self
     \<and> (\<forall>k < length outputs.
          (\<forall>inp \<in> set inputs.
             entry_column (comp_input_entry E ascope head sc node ld (outputs ! k) inp unbound self)
               \<noteq> Some (i + k))
          \<longrightarrow> LHS s ! (i + k) ! (i + k) = 1)"
  using assms
proof (induction outputs arbitrary: i L self)
  case Nil
  then show ?case by simp
next
  case (Cons out outputs)
  from Cons.prems obtain s0 L1 s1 where
      o: "open_row i self = Inr s0"
    and ins: "comp_inputs E ascope head sc node ld out inputs i (L\<lparr>loc_output_name := Some out\<rparr>) s0 = Inr (L1, s1)"
    and rest: "comp_outputs E ascope head sc node ld inputs outputs (i + 1) L1 s1 = Inr (i', L', s)"
    by (auto simp: ebind_eq_Inr)
  note O = open_row_Inr [OF o]
  note I = comp_inputs_Inr [OF ins]
  note IH = Cons.IH [OF rest]
  have l01: "same_lists s1 self"
    using O(3) I same_lists_trans by blast
  have cols: "comp_input_entry E ascope head sc node ld x y unbound s1 =
      comp_input_entry E ascope head sc node ld x y unbound self" for x y
    using comp_input_entry_lists [OF l01] by simp
  have cols0: "comp_input_entry E ascope head sc node ld x y unbound s0 =
      comp_input_entry E ascope head sc node ld x y unbound self" for x y
    using comp_input_entry_lists [OF O(3)] by simp
  have 1: "i' = i + length (out # outputs)"
    using IH by simp
  have 2: "\<forall>r < i. LHS s ! r = LHS self ! r"
    using IH I O(2) by simp
  have 3: "same_lists s self"
    using IH l01 same_lists_trans by blast
  have 4: "LHS s ! (i + k) ! (i + k) = 1"
    if k: "k < length (out # outputs)"
      and no: "\<forall>inp \<in> set inputs.
        entry_column (comp_input_entry E ascope head sc node ld ((out # outputs) ! k) inp unbound self)
          \<noteq> Some (i + k)"
    for k
  proof (cases k)
    case 0
    with no have "\<forall>inp \<in> set inputs.
        entry_column (comp_input_entry E ascope head sc node ld out inp unbound s0) \<noteq> Some i"
      by (simp add: cols0)
    with I have "LHS s1 ! i ! i = LHS s0 ! i ! i"
      by blast
    moreover from IH have "LHS s ! i = LHS s1 ! i"
      by simp
    ultimately show ?thesis
      using O(1) 0 by simp
  next
    case (Suc j)
    with k have j: "j < length outputs" by simp
    from no Suc have "\<forall>inp \<in> set inputs.
        entry_column (comp_input_entry E ascope head sc node ld (outputs ! j) inp unbound s1)
          \<noteq> Some (i + 1 + j)"
      by (simp add: cols)
    with IH j have "LHS s ! (i + 1 + j) ! (i + 1 + j) = 1"
      by blast
    with Suc show ?thesis by simp
  qed
  from 1 2 3 4 show ?case by blast
qed

lemma assy_inputs_Inr:
  assumes "assy_inputs E ascope head node inputs i L self = Inr (i', L', s)"
  shows "i \<le> i' \<and> (\<forall>r < i. LHS s ! r = LHS self ! r) \<and> same_lists s self"
  using assms
proof (induction inputs arbitrary: i L self)
  case Nil
  then show ?case by simp
next
  case (Cons inp inputs)
  from Cons.prems obtain s0 e L1 s1 where
      o: "open_row i self = Inr s0"
    and w: "write_entry i e s0 = Inr s1"
    and rest: "assy_inputs E ascope head node inputs (i + 1) L1 s1 = Inr (i', L', s)"
    by (auto simp: ebind_eq_Inr)
  from open_row_Inr(2,3) [OF o] write_entry_Inr(1,2) [OF w] Cons.IH [OF rest]
  show ?case
    by (auto intro: same_lists_trans)
qed

lemma assy_outputs_Inr:
  assumes "assy_outputs E ascope head node outputs i L self = Inr (i', L', s)"
  shows "i \<le> i' \<and> (\<forall>r < i. LHS s ! r = LHS self ! r) \<and> same_lists s self"
  using assms
proof (induction outputs arbitrary: i L self)
  case Nil
  then show ?case by simp
next
  case (Cons out outputs)
  from Cons.prems obtain s0 e L1 s1 where
      o: "open_row i self = Inr s0"
    and w: "write_entry i e s0 = Inr s1"
    and rest: "assy_outputs E ascope head node outputs (i + 1) L1 s1 = Inr (i', L', s)"
    by (auto simp: ebind_eq_Inr)
  from open_row_Inr(2,3) [OF o] write_entry_Inr(1,2) [OF w] Cons.IH [OF rest]
  show ?case
    by (auto intro: same_lists_trans)
qed

lemma kept_refl [simp]: "kept i self i self"
  by (simp add: kept_def)

lemma kept_trans: "kept i a j b \<Longrightarrow> kept j b k c \<Longrightarrow> kept i a k c"
  by (auto simp: kept_def intro: same_lists_trans)

lemma assemble_kept:
  "assemble_direct E ascope dscope eq_num head sc self = Inr (i', s) \<Longrightarrow> kept eq_num self i' s"
  "assemble_nodes E ascope ed head sc nodes i L self = Inr (i', s) \<Longrightarrow> kept i self i' s"
  "assemble_node E ascope ed head sc node i L self = Inr (i', L', s) \<Longrightarrow> kept i self i' s"
proof (induction E ascope dscope eq_num head sc self and E ascope ed head sc nodes i L self
    and E ascope ed head sc node i L self arbitrary: i' s and i' s and i' L' s
    rule: assemble_direct_assemble_nodes_assemble_node.induct)
  case (1 E ascope pathname solver run_once params eqs scope_edges nodes eq_num head solver_conns self)
  then show ?case by simp
next
  case (2 E ascope scope_edges head solver_conns i_eq L self)
  then show ?case by simp
next
  case (3 E ascope scope_edges head solver_conns node rest i_eq L self)
  from 3(3) obtain i1 L1 s1 where
      n: "assemble_node E ascope scope_edges head solver_conns node i_eq L self = Inr (i1, L1, s1)"
    and r: "assemble_nodes E ascope scope_edges head solver_conns rest i1 L1 s1 = Inr (i', s)"
    by (auto simp: ebind_eq_Inr)
  from 3(1) [OF n] 3(2) [OF r] show ?case
    by (rule kept_trans)
next
  case (4 E ascope scope_edges head solver_conns node i_eq L self)
  show ?case
  proof (cases node)
    case (Component n d)
    show ?thesis
    proof (cases d)
      case None
      with 4(3) Component show ?thesis by simp
    next
      case (Some ld)
      with 4(3) Component obtain edge_dict where
        "comp_outputs E ascope head solver_conns n ld (fst edge_dict) (snd edge_dict) i_eq
           (L\<lparr>loc_local_derivs := Some ld\<rparr>) self = Inr (i', L', s)"
        by (auto simp: ebind_eq_Inr)
      from comp_outputs_Inr [OF this] show ?thesis
        by (simp add: kept_def)
    qed
  next
    case (DriverNode n drv)
    with 4(3) obtain sd where ok: "\<not> \<not> is_solver drv"
      and a: "assemble_direct E ascope drv i_eq head (Some sd) self = Inr (i', s)"
      by (auto simp: ebind_eq_Inr split: if_splits)
    from 4(1) [OF DriverNode ok a] show ?thesis .
  next
    case (AssemblyNode n path sub drv)
    with 4(3) obtain edge_dict i1 L1 s1 i2 s2 where ok: "\<not> \<not> is_run_once drv"
      and ins: "assy_inputs E ascope head n (fst edge_dict) i_eq L self = Inr (i1, L1, s1)"
      and a: "assemble_direct E sub drv i1 path None s1 = Inr (i2, s2)"
      and outs: "assy_outputs E sub head n (snd edge_dict) i2 L1 s2 = Inr (i', L', s)"
      by (auto simp: ebind_eq_Inr split: if_splits)
    have "kept i_eq self i1 s1"
      using assy_inputs_Inr [OF ins] by (simp add: kept_def)
    moreover have "kept i1 s1 i2 s2"
      using 4(2) [OF AssemblyNode ok a] .
    moreover have "kept i2 s2 i' s"
      using assy_outputs_Inr [OF outs] by (simp add: kept_def)
    ultimately show ?thesis
      by (blast intro: kept_trans)
  qed
qed

text \<open>
  C2 as the code has it. Every row that the assembler opens is opened by setting its
  diagonal entry to \<open>1\<close>, and a pass that starts at an equation number never writes a row
  before that number, so a completed row stays as it was completed. For the rows of the
  outputs of a terminal component: when the loop over the outputs returns, the equation
  number has advanced by the number of outputs, and the diagonal entry of the row of an
  output is exactly \<open>1\<close> provided no input of the component has its entry written to the
  diagonal column of that row.
\<close>

theorem rows_opened_with_unit_diagonal:
  "(open_row i_eq self = Inr opened \<longrightarrow> LHS opened ! i_eq ! i_eq = 1)
   \<and> (assemble_direct E ascope dscope eq_num head solver_conns self = Inr (n, assembled) \<longrightarrow>
        eq_num \<le> n \<and> (\<forall>r < eq_num. LHS assembled ! r = LHS self ! r))
   \<and> (assemble_nodes E ascope scope_edges head solver_conns nodes i_eq L self = Inr (n, assembled) \<longrightarrow>
        i_eq \<le> n \<and> (\<forall>r < i_eq. LHS assembled ! r = LHS self ! r))
   \<and> (comp_outputs E ascope head solver_conns node_name local_derivs inputs outputs i_eq L self =
          Inr (i_end, L', s) \<longrightarrow>
        i_end = i_eq + length outputs
        \<and> (\<forall>k < length outputs.
             (\<forall>input_name \<in> set inputs.
                entry_column (comp_input_entry E ascope head solver_conns node_name local_derivs
                                (outputs ! k) input_name unbound self) \<noteq> Some (i_eq + k))
             \<longrightarrow> LHS s ! (i_eq + k) ! (i_eq + k) = 1))"
proof (intro conjI impI)
  assume "open_row i_eq self = Inr opened"
  then show "LHS opened ! i_eq ! i_eq = 1"
    by (rule open_row_Inr(1))
next
  assume a: "assemble_direct E ascope dscope eq_num head solver_conns self = Inr (n, assembled)"
  from assemble_kept(1) [OF a] show "eq_num \<le> n" "\<forall>r < eq_num. LHS assembled ! r = LHS self ! r"
    by (simp_all add: kept_def)
next
  assume a: "assemble_nodes E ascope scope_edges head solver_conns nodes i_eq L self = Inr (n, assembled)"
  from assemble_kept(2) [OF a] show "i_eq \<le> n" "\<forall>r < i_eq. LHS assembled ! r = LHS self ! r"
    by (simp_all add: kept_def)
next
  assume a: "comp_outputs E ascope head solver_conns node_name local_derivs inputs outputs i_eq L self =
          Inr (i_end, L', s)"
  from comp_outputs_Inr [OF a] show "i_end = i_eq + length outputs"
    "\<forall>k < length outputs.
             (\<forall>input_name \<in> set inputs.
                entry_column (comp_input_entry E ascope head solver_conns node_name local_derivs
                                (outputs ! k) input_name unbound self) \<noteq> Some (i_eq + k))
             \<longrightarrow> LHS s ! (i_eq + k) ! (i_eq + k) = 1"
    by blast+
qed

theorem rows_opened_with_unit_diagonal_witness:
  "open_row 1 chain_half = Inr (chain_half\<lparr>LHS := [[1, 0], [0, 1]]\<rparr>)
   \<and> LHS (chain_half\<lparr>LHS := [[1, 0], [0, 1]]\<rparr>) ! 1 ! 1 = 1
   \<and> assemble_direct exact_env chain_scope chain_driver 0 [] None (chain_ready direct) = Inr (2, chain_full)
   \<and> assemble_nodes exact_env chain_scope (edge_dicts chain_driver) [] None
        [Component ''c2'' (Some [''b'' \<mapsto> [''x'' \<mapsto> 3]])] 1 unbound chain_half = Inr (2, chain_full)
   \<and> LHS chain_full ! 0 = LHS chain_half ! 0
   \<and> comp_outputs exact_env chain_scope [] None ''c2'' [''b'' \<mapsto> [''x'' \<mapsto> 3]] [''x''] [''b''] 1 unbound chain_half =
        Inr (2, unbound\<lparr>loc_output_name := Some ''b'', loc_expr_txt := Some ''c1.a'', loc_target := Some ''c2.x''\<rparr>,
             chain_full)
   \<and> entry_column (comp_input_entry exact_env chain_scope [] None ''c2'' [''b'' \<mapsto> [''x'' \<mapsto> 3]]
        ''b'' ''x'' unbound chain_half) = Some 0
   \<and> LHS chain_full ! 1 ! 1 = 1"
proof -
  let ?ld = "[''b'' \<mapsto> [''x'' \<mapsto> (3::real)]]"
  let ?L = "unbound\<lparr>loc_output_name := Some ''b'', loc_expr_txt := Some ''c1.a'', loc_target := Some ''c2.x''\<rparr>"
  have o: "open_row 1 chain_half = Inr (chain_half\<lparr>LHS := [[1, 0], [0, 1]]\<rparr>)"
    by (simp add: chain_half_def chain_ready_def eval_simps)
  have d: "assemble_direct exact_env chain_scope chain_driver 0 [] None (chain_ready direct) = Inr (2, chain_full)"
    by (simp add: chain_full_def chain_assemble)
  have n: "assemble_nodes exact_env chain_scope (edge_dicts chain_driver) [] None
        [Component ''c2'' (Some ?ld)] 1 unbound chain_half = Inr (2, chain_full)"
    by (simp add: chain_half_def chain_full_def chain_scope_def chain_driver_def chain_ready_def eval_simps)
  have c: "comp_outputs exact_env chain_scope [] None ''c2'' ?ld [''x''] [''b''] 1 unbound chain_half =
        Inr (2, ?L, chain_full)"
    by (simp add: chain_half_def chain_full_def chain_scope_def chain_ready_def eval_simps)
  have e: "entry_column (comp_input_entry exact_env chain_scope [] None ''c2'' ?ld ''b'' ''x'' unbound chain_half)
      = Some 0"
    by (simp add: entry_column_def chain_half_def chain_scope_def chain_ready_def eval_simps)
  note T = rows_opened_with_unit_diagonal [of 1 chain_half "chain_half\<lparr>LHS := [[1, 0], [0, 1]]\<rparr>"
      exact_env chain_scope chain_driver 0 "[]" None 2 chain_full
      "edge_dicts chain_driver" "[Component ''c2'' (Some ?ld)]" unbound
      "''c2''" ?ld "[''x'']" "[''b'']" 2 ?L chain_full]
  have l: "LHS (chain_half\<lparr>LHS := [[1, 0], [0, 1]]\<rparr>) ! 1 ! 1 = 1"
    using T o by blast
  have f: "LHS chain_full ! 0 = LHS chain_half ! 0"
    using T n by simp
  have u: "LHS chain_full ! 1 ! 1 = 1"
    using T c e by simp
  from o d n c e l f u show ?thesis
    by blast
qed


text \<open>
  C2 as the claim states it fails: in the example the solver's dictionary pairs the input
  \<open>c.x\<close> with \<open>c.y\<close>, the component's own output. The row of \<open>c.y\<close> is opened with \<open>1\<close> on
  the diagonal, and the entry of \<open>c.x\<close>, \<open>-dy/dx = -1/2\<close>, is then assigned to the same
  place. No error is raised, by the assembly pass or by the solve.
\<close>

theorem diagonal_overwritten:
  "setup_analytic loop_problem loop_self = Inr loop_ready
   \<and> assemble_direct exact_env (parent_scope loop_problem) (parent loop_problem) 0 [] None loop_ready =
        Inr (1, loop_ready\<lparr>LHS := [[- (1 / 2)]], RHS := [[2]]\<rparr>)
   \<and> LHS (loop_ready\<lparr>LHS := [[- (1 / 2)]], RHS := [[2]]\<rparr>) ! 0 ! 0 \<noteq> 1
   \<and> calc_gradient exact_env loop_problem False loop_self =
        Inr (loop_ready\<lparr>LHS := [[- (1 / 2)]], RHS := [[2]]\<rparr>)"
proof -
  have 1: "setup_analytic loop_problem loop_self = Inr loop_ready"
    by (simp add: loop_problem_def loop_driver_def loop_solver_def loop_self_def loop_ready_def
        setup_analytic_def eval_simps)
  have 2: "assemble_direct exact_env (parent_scope loop_problem) (parent loop_problem) 0 [] None loop_ready =
        Inr (1, loop_ready\<lparr>LHS := [[- (1 / 2)]], RHS := [[2]]\<rparr>)"
    by (simp add: loop_problem_def loop_driver_def loop_solver_def loop_ready_def eval_simps)
  have 3: "solve exact_env (loop_ready\<lparr>LHS := [[- (1 / 2)]], RHS := [[2]]\<rparr>) =
        Inr (loop_ready\<lparr>LHS := [[- (1 / 2)]], RHS := [[2]]\<rparr>)"
    by (simp add: solve_def exact_env_def loop_ready_def exact_solve_def gj_step_def find_pivot_def
        upt_rec dot_def mat_add_def)
  have 4: "mode loop_ready = direct"
    by (simp add: loop_ready_def)
  from 1 2 3 4 show ?thesis
    by (simp add: calc_gradient_def loop_ready_def)
qed

end
